theory Spec2Isabelle
  imports Complex_Main
begin

text \<open>
  The chord transposition engine (\<open>src/utils/transpose.ts\<close>) and the validation pipeline
  (\<open>src/utils/validation.ts\<close>): first the functions of the two files as HOL functions, then what
  holds of them.
\<close>

section \<open>JavaScript strings\<close>

text \<open>
  A string of the program is a \<^typ>\<open>string\<close>: one \<^typ>\<open>char\<close> per UTF-16 code unit, for
  the code units 0 to 255. White space, to \<open>trim\<close> and to \<open>\s\<close>, is tab, line feed, vertical
  tab, form feed, carriage return, space and the no-break space U+00A0; the line terminators
  are line feed and carriage return. \<open>toLowerCase\<close> maps A to Z and the letters U+00C0 to
  U+00DE (the multiplication sign U+00D7 is no letter) to the code unit 32 above.
  \<open>toUpperCase\<close> maps a to z and the letters U+00E0 to U+00FE (but for the division sign
  U+00F7) to the code unit 32 below; the upper-case forms of U+00B5, U+00DF and U+00FF are no
  code units below 256, and these three are left as they are: where the program upper-cases
  (the first letter of a note name, and under the flag \<open>/i\<close>) the result is then compared with
  ASCII text only, which none of the three forms equals.
\<close>

definition latin1_upper :: "char \<Rightarrow> bool" where
  "latin1_upper c = (let n = (of_char c :: nat) in 0xC0 \<le> n \<and> n \<le> 0xDE \<and> n \<noteq> 0xD7)"

definition latin1_lower :: "char \<Rightarrow> bool" where
  "latin1_lower c = (let n = (of_char c :: nat) in 0xE0 \<le> n \<and> n \<le> 0xFE \<and> n \<noteq> 0xF7)"

definition toLowerCase_char :: "char \<Rightarrow> char" where
  "toLowerCase_char c =
     (case map_of (zip ''ABCDEFGHIJKLMNOPQRSTUVWXYZ'' ''abcdefghijklmnopqrstuvwxyz'') c of
        None \<Rightarrow> if latin1_upper c then char_of (of_char c + (32 :: nat)) else c
      | Some d \<Rightarrow> d)"

definition toUpperCase_char :: "char \<Rightarrow> char" where
  "toUpperCase_char c =
     (case map_of (zip ''abcdefghijklmnopqrstuvwxyz'' ''ABCDEFGHIJKLMNOPQRSTUVWXYZ'') c of
        None \<Rightarrow> if latin1_lower c then char_of (of_char c - (32 :: nat)) else c
      | Some d \<Rightarrow> d)"

definition toLowerCase :: "string \<Rightarrow> string" where
  "toLowerCase s = map toLowerCase_char s"

definition toUpperCase :: "string \<Rightarrow> string" where
  "toUpperCase s = map toUpperCase_char s"

definition is_line_terminator :: "char \<Rightarrow> bool" where
  "is_line_terminator c = (c \<in> set [CHR 0x0A, CHR 0x0D])"

definition is_space :: "char \<Rightarrow> bool" where
  "is_space c = (c \<in> set [CHR 0x09, CHR 0x0A, CHR 0x0B, CHR 0x0C, CHR 0x0D, CHR '' '', CHR 0xA0])"

definition trim :: "string \<Rightarrow> string" where
  "trim s = rev (dropWhile is_space (rev (dropWhile is_space s)))"

definition startsWith :: "string \<Rightarrow> string \<Rightarrow> bool" where
  "startsWith s p = (take (length p) s = p)"

definition endsWith :: "string \<Rightarrow> string \<Rightarrow> bool" where
  "endsWith s p = startsWith (rev s) (rev p)"

fun includes_str :: "string \<Rightarrow> string \<Rightarrow> bool" where
  "includes_str [] sub = (sub = [])"
| "includes_str (c # cs) sub = (startsWith (c # cs) sub \<or> includes_str cs sub)"

text \<open>\<open>s.replace(pat, rep)\<close> for a string pattern: the first occurrence only. No replacement
  text of the program holds a dollar sign, so the replacement is taken literally.\<close>

fun replace_str :: "string \<Rightarrow> string \<Rightarrow> string \<Rightarrow> string" where
  "replace_str [] pat rep = (if pat = [] then rep else [])"
| "replace_str (c # cs) pat rep =
     (if startsWith (c # cs) pat then rep @ drop (length pat) (c # cs)
      else c # replace_str cs pat rep)"

text \<open>\<open>s.split('\n')\<close> and \<open>lines.join('\n')\<close>.\<close>

fun split_lines :: "string \<Rightarrow> string list" where
  "split_lines [] = [[]]"
| "split_lines (c # cs) =
     (if c = CHR 0x0A then [] # split_lines cs
      else (case split_lines cs of [] \<Rightarrow> [[c]] | l # ls \<Rightarrow> (c # l) # ls))"

fun join_with :: "string \<Rightarrow> string list \<Rightarrow> string" where
  "join_with sep [] = []"
| "join_with sep [l] = l"
| "join_with sep (l # m # ls) = l @ sep @ join_with sep (m # ls)"

text \<open>The decimal text of a natural number, as a template literal prints it.\<close>

definition digit_char :: "nat \<Rightarrow> char" where
  "digit_char d = ''0123456789'' ! (d mod 10)"

fun show_nat :: "nat \<Rightarrow> string" where
  "show_nat n = (if n < 10 then [digit_char n] else show_nat (n div 10) @ [digit_char n])"

definition show_int :: "int \<Rightarrow> string" where
  "show_int k = (if k < 0 then CHR ''-'' # show_nat (nat (- k)) else show_nat (nat k))"

section \<open>Regular expressions\<close>

text \<open>
  The regular expressions of the program, matched as a backtracking engine matches them:
  \<open>rmatch i r s\<close> lists, in the engine's order of preference, what is left of \<open>s\<close> after each
  way \<open>r\<close> matches at its start. A greedy quantifier lists the longer matches first, a lazy
  one the shorter; an iteration of a star that consumes nothing is not repeated. \<open>i\<close> is the
  flag \<open>/i\<close>, under which two code units match when their upper-case forms agree.
  \<open>Eos\<close> is \<open>$\<close> (no pattern of the program has the flag \<open>/m\<close>); a leading \<open>^\<close> is the caller's
  choice between \<open>test_at_start\<close> and \<open>test_search\<close>.
\<close>

datatype atom = Chr char | OneOf string | NoneOf string | Space | Digit | Dot

datatype regex = Atom atom | Eps | Eos | Seq regex regex | Alt regex regex | Opt regex
  | Star regex | LazyStar regex

definition canon :: "bool \<Rightarrow> char \<Rightarrow> char" where
  "canon i c = (if i then toUpperCase_char c else c)"

fun atom_ok :: "bool \<Rightarrow> atom \<Rightarrow> char \<Rightarrow> bool" where
  "atom_ok i (Chr x) c = (canon i x = canon i c)"
| "atom_ok i (OneOf xs) c = (canon i c \<in> set (map (canon i) xs))"
| "atom_ok i (NoneOf xs) c = (canon i c \<notin> set (map (canon i) xs))"
| "atom_ok i Space c = is_space c"
| "atom_ok i Digit c = (c \<in> set ''0123456789'')"
| "atom_ok i Dot c = (\<not> is_line_terminator c)"

fun rmatch :: "bool \<Rightarrow> regex \<Rightarrow> string \<Rightarrow> string list" where
  "rmatch i (Atom a) s = (case s of [] \<Rightarrow> [] | c # cs \<Rightarrow> if atom_ok i a c then [cs] else [])"
| "rmatch i Eps s = [s]"
| "rmatch i Eos s = (if s = [] then [s] else [])"
| "rmatch i (Seq r1 r2) s = concat (map (\<lambda>s'. rmatch i r2 s') (rmatch i r1 s))"
| "rmatch i (Alt r1 r2) s = rmatch i r1 s @ rmatch i r2 s"
| "rmatch i (Opt r) s = rmatch i r s @ [s]"
| "rmatch i (Star r) s =
     concat (map (\<lambda>s'. rmatch i (Star r) s')
               (filter (\<lambda>s'. length s' < length s) (rmatch i r s))) @ [s]"
| "rmatch i (LazyStar r) s =
     s # concat (map (\<lambda>s'. rmatch i (LazyStar r) s')
                   (filter (\<lambda>s'. length s' < length s) (rmatch i r s)))"

fun lit :: "string \<Rightarrow> regex" where
  "lit [] = Eps"
| "lit [c] = Atom (Chr c)"
| "lit (c # cs) = Seq (Atom (Chr c)) (lit cs)"

fun alts :: "regex list \<Rightarrow> regex" where
  "alts [] = Eps"
| "alts [r] = r"
| "alts (r # rs) = Alt r (alts rs)"

fun seqs :: "regex list \<Rightarrow> regex" where
  "seqs [] = Eps"
| "seqs [r] = r"
| "seqs (r # rs) = Seq r (seqs rs)"

definition Plus :: "regex \<Rightarrow> regex" where
  "Plus r = Seq r (Star r)"

text \<open>What is left after the preferred match at the start of \<open>s\<close>, if there is a match.\<close>

definition match_at :: "bool \<Rightarrow> regex \<Rightarrow> string \<Rightarrow> string option" where
  "match_at i r s = (case rmatch i r s of [] \<Rightarrow> None | rest # _ \<Rightarrow> Some rest)"

text \<open>\<open>/^r/.test(s)\<close> and \<open>/r/.test(s)\<close>.\<close>

definition test_at_start :: "bool \<Rightarrow> regex \<Rightarrow> string \<Rightarrow> bool" where
  "test_at_start i r s = (match_at i r s \<noteq> None)"

fun test_search :: "bool \<Rightarrow> regex \<Rightarrow> string \<Rightarrow> bool" where
  "test_search i r [] = test_at_start i r []"
| "test_search i r (c # cs) = (test_at_start i r (c # cs) \<or> test_search i r cs)"

text \<open>A capture group: the text its pattern consumed, with what is left.\<close>

definition grp :: "bool \<Rightarrow> regex \<Rightarrow> string \<Rightarrow> (string \<times> string) list" where
  "grp i r s = map (\<lambda>rest. (take (length s - length rest) s, rest)) (rmatch i r s)"

definition opt_grp :: "bool \<Rightarrow> regex \<Rightarrow> string \<Rightarrow> (string option \<times> string) list" where
  "opt_grp i r s = map (\<lambda>(g, rest). (Some g, rest)) (grp i r s) @ [(None, s)]"

section \<open>Notes and keys\<close>

datatype error = InvalidNote string

definition NOTES :: "string list" where
  "NOTES = [''C'', ''C#'', ''D'', ''D#'', ''E'', ''F'', ''F#'', ''G'', ''G#'', ''A'', ''A#'', ''B'']"

definition FLAT_NOTES :: "string list" where
  "FLAT_NOTES = [''C'', ''Db'', ''D'', ''Eb'', ''E'', ''F'', ''Gb'', ''G'', ''Ab'', ''A'', ''Bb'', ''B'']"

definition SHARP_NOTES :: "string list" where
  "SHARP_NOTES = [''C'', ''C#'', ''D'', ''D#'', ''E'', ''F'', ''F#'', ''G'', ''G#'', ''A'', ''A#'', ''B'']"

record KeySignature =
  name :: string
  index :: int
  flats :: nat
  sharps :: nat

definition MAJOR_KEYS :: "KeySignature list" where
  "MAJOR_KEYS =
    [\<lparr>name = ''C'', index = 0, flats = 0, sharps = 0\<rparr>,
     \<lparr>name = ''G'', index = 7, flats = 0, sharps = 1\<rparr>,
     \<lparr>name = ''D'', index = 2, flats = 0, sharps = 2\<rparr>,
     \<lparr>name = ''A'', index = 9, flats = 0, sharps = 3\<rparr>,
     \<lparr>name = ''E'', index = 4, flats = 0, sharps = 4\<rparr>,
     \<lparr>name = ''B'', index = 11, flats = 0, sharps = 5\<rparr>,
     \<lparr>name = ''F#'', index = 6, flats = 1, sharps = 6\<rparr>,
     \<lparr>name = ''Db'', index = 1, flats = 5, sharps = 0\<rparr>,
     \<lparr>name = ''Ab'', index = 8, flats = 4, sharps = 0\<rparr>,
     \<lparr>name = ''Eb'', index = 3, flats = 3, sharps = 0\<rparr>,
     \<lparr>name = ''Bb'', index = 10, flats = 2, sharps = 0\<rparr>,
     \<lparr>name = ''F'', index = 5, flats = 1, sharps = 0\<rparr>]"

text \<open>\<open>a % b\<close> on integers: the remainder takes the sign of the dividend.\<close>

definition js_rem :: "int \<Rightarrow> int \<Rightarrow> int" where
  "js_rem a b = sgn a * (\<bar>a\<bar> mod \<bar>b\<bar>)"

definition MINOR_KEYS :: "KeySignature list" where
  "MINOR_KEYS =
     map (\<lambda>major. \<lparr>name = NOTES ! nat (js_rem (index major + 9) 12) @ ''m'',
                    index = js_rem (index major + 9) 12,
                    flats = flats major, sharps = sharps major\<rparr>) MAJOR_KEYS"

text \<open>\<open>xs.indexOf(x)\<close>: the first position of \<open>x\<close>, or -1.\<close>

fun indexOf :: "'a list \<Rightarrow> 'a \<Rightarrow> int" where
  "indexOf [] x = - 1"
| "indexOf (y # ys) x = (if y = x then 0 else (let k = indexOf ys x in if k = - 1 then - 1 else k + 1))"

text \<open>
  \<open>flatMap[lowerNote] || ...\<close>: the table's values are lower-case. The table is an object
  literal, so for a note that lower-cases to a name of \<open>Object.prototype\<close> (\<open>constructor\<close>,
  \<open>__proto__\<close>) the program's value is an object and no string; like the string of this model
  it is no element of \<open>NOTES\<close>, which is all \<open>getNoteIndex\<close> asks of it.
\<close>

definition flatMap :: "(string \<times> string) list" where
  "flatMap = [(''db'', ''c#''), (''eb'', ''d#''), (''gb'', ''f#''), (''ab'', ''g#''), (''bb'', ''a#''),
              (''cb'', ''b''), (''fb'', ''e''), (''cb'', ''b'')]"

definition normalizeToSharp :: "string \<Rightarrow> string" where
  "normalizeToSharp note =
     (let lowerNote = toLowerCase note in
      case map_of flatMap lowerNote of
        Some v \<Rightarrow> v
      | None \<Rightarrow> toUpperCase (take 1 note) @ replace_str (drop 1 note) ''#'' ''#'')"

definition getNoteIndex :: "string \<Rightarrow> error + int" where
  "getNoteIndex note =
     (let normalized = normalizeToSharp note;
          index = indexOf NOTES normalized
      in if index = - 1 then Inl (InvalidNote note) else Inr index)"

text \<open>\<open>notes[newIndex]\<close>: \<open>newIndex\<close> is at least 0 and below 12 for every integer shift, so the
  read is in range.\<close>

definition transposeNote :: "string \<Rightarrow> int \<Rightarrow> bool \<Rightarrow> error + string" where
  "transposeNote note semitones useFlats =
     (case getNoteIndex note of
        Inl e \<Rightarrow> Inl e
      | Inr currentIndex \<Rightarrow>
          (let newIndex = js_rem (js_rem (currentIndex + semitones) 12 + 12) 12;
               notes = (if useFlats then FLAT_NOTES else SHARP_NOTES)
           in Inr (notes ! nat newIndex)))"

section \<open>Chord parsing\<close>

record ParsedChord =
  root :: string
  quality :: string
  bass :: "string option"

text \<open>\<open>[A-G]\<close>, \<open>[#b]\<close> and \<open>[A-G][#b]?\<close>.\<close>

definition A_G :: regex where
  "A_G = Atom (OneOf ''ABCDEFG'')"

definition sharp_flat :: regex where
  "sharp_flat = Atom (OneOf ''#b'')"

definition note_rx :: regex where
  "note_rx = Seq A_G (Opt sharp_flat)"

text \<open>
  \<open>/^([A-G][#b]?)(.*?)(\/[A-G][#b]?)?$/\<close> with its three capture groups: the first way, in
  the engine's order, in which the groups one after the other consume the whole text.
  \<open>bass_end\<close> is the end of the pattern, the optional third group (\<open>None\<close> where it takes no
  part in the match) followed by the end of the text; \<open>chord_tail\<close> is the lazy second group
  followed by that end.
\<close>

definition bass_end :: "string \<Rightarrow> string option list" where
  "bass_end s2 =
     [g3.
        (g3, s3) \<leftarrow> opt_grp False (Seq (Atom (Chr CHR ''/'')) note_rx) s2,
        rest \<leftarrow> rmatch False Eos s3]"

definition chord_tail :: "string \<Rightarrow> (string \<times> string option) list" where
  "chord_tail s1 =
     [(g2, g3). (g2, s2) \<leftarrow> grp False (LazyStar (Atom Dot)) s1, g3 \<leftarrow> bass_end s2]"

definition chordRegex :: "string \<Rightarrow> (string \<times> string \<times> string option) option" where
  "chordRegex s =
     (case [(g1, g2, g3). (g1, s1) \<leftarrow> grp False note_rx s, (g2, g3) \<leftarrow> chord_tail s1] of
        [] \<Rightarrow> None
      | m # _ \<Rightarrow> Some m)"

definition parseChord :: "string \<Rightarrow> ParsedChord" where
  "parseChord chord =
     (case chordRegex (trim chord) of
        None \<Rightarrow> \<lparr>root = chord, quality = [], bass = None\<rparr>
      | Some (g1, g2, g3) \<Rightarrow> \<lparr>root = g1, quality = g2, bass = map_option (drop 1) g3\<rparr>)"

definition chordPatterns :: "regex list" where
  "chordPatterns =
     [seqs [A_G, Opt sharp_flat,
            Opt (alts [lit ''m'', lit ''maj'', lit ''dim'', lit ''aug'', lit ''sus'', lit ''add'',
                       lit '' maj7'', lit '' m7'', lit '' 7'', lit '' maj9'', lit '' m9'',
                       lit '' 9'', lit '' 11'', lit '' 13'']),
            Eos],
      seqs [A_G, Opt sharp_flat, Atom (Chr CHR ''/''),
            Opt (Seq (lit ''A-G]'') (Opt sharp_flat)),
            Eos]]"

definition isChord :: "string \<Rightarrow> bool" where
  "isChord text = list_ex (\<lambda>pattern. test_at_start True pattern (trim text)) chordPatterns"

section \<open>Transposition\<close>

text \<open>A thrown error ends the function: \<open>Inl\<close> is the error, \<open>Inr\<close> the value returned.\<close>

definition transposeChord :: "string \<Rightarrow> int \<Rightarrow> bool \<Rightarrow> error + string" where
  "transposeChord chord semitones useFlats =
     (if semitones = 0 \<or> trim chord = [] then Inr chord
      else
        let parsed = parseChord chord in
        case transposeNote (root parsed) semitones useFlats of
          Inl e \<Rightarrow> Inl e
        | Inr newRoot \<Rightarrow>
            (case (case bass parsed of
                     None \<Rightarrow> Inr None
                   | Some b \<Rightarrow>
                       if b = [] then Inr None
                       else (case transposeNote b semitones useFlats of
                               Inl e \<Rightarrow> Inl e
                             | Inr nb \<Rightarrow> Inr (Some nb))) of
               Inl e \<Rightarrow> Inl e
             | Inr newBass \<Rightarrow>
                 (case newBass of
                    None \<Rightarrow> Inr (newRoot @ quality parsed)
                  | Some nb \<Rightarrow>
                      if nb = [] then Inr (newRoot @ quality parsed)
                      else Inr (newRoot @ quality parsed @ ''/'' @ nb))))"

text \<open>\<open>xs.map(f)\<close> where \<open>f\<close> may throw: the first error, in the order of the list, ends it.\<close>

fun map_err :: "('a \<Rightarrow> error + 'b) \<Rightarrow> 'a list \<Rightarrow> error + 'b list" where
  "map_err f [] = Inr []"
| "map_err f (x # xs) =
     (case f x of
        Inl e \<Rightarrow> Inl e
      | Inr y \<Rightarrow> (case map_err f xs of Inl e \<Rightarrow> Inl e | Inr ys \<Rightarrow> Inr (y # ys)))"

definition transposeChords :: "string list \<Rightarrow> int \<Rightarrow> error + string list" where
  "transposeChords chords semitones =
     (if semitones = 0 then Inr chords
      else map_err (\<lambda>chord. transposeChord chord semitones False) chords)"

text \<open>
  \<open>s.replace(r, f)\<close> for a pattern with the flag \<open>/g\<close> and a callback: every match, found from
  left to right, each search starting where the last match ended, is replaced by what the
  callback returns for it; after an empty match the search moves on by one code unit.
\<close>

fun replace_all :: "bool \<Rightarrow> regex \<Rightarrow> (string \<Rightarrow> error + string) \<Rightarrow> string \<Rightarrow> error + string" where
  "replace_all i r f s =
     (case match_at i r s of
        Some rest \<Rightarrow>
          if length rest < length s then
            (case f (take (length s - length rest) s) of
               Inl e \<Rightarrow> Inl e
             | Inr out \<Rightarrow>
                 (case replace_all i r f rest of Inl e \<Rightarrow> Inl e | Inr t \<Rightarrow> Inr (out @ t)))
          else
            (case f [] of
               Inl e \<Rightarrow> Inl e
             | Inr out \<Rightarrow>
                 (case s of
                    [] \<Rightarrow> Inr out
                  | c # cs \<Rightarrow>
                      (case replace_all i r f cs of
                         Inl e \<Rightarrow> Inl e
                       | Inr t \<Rightarrow> Inr (out @ c # t))))
      | None \<Rightarrow>
          (case s of
             [] \<Rightarrow> Inr []
           | c # cs \<Rightarrow> (case replace_all i r f cs of Inl e \<Rightarrow> Inl e | Inr t \<Rightarrow> Inr (c # t))))"

text \<open>\<open>(maj|m|dim|aug|sus|add|7| maj7| m7| 9| 11| 13)\<close>, shared by the patterns below.\<close>

definition quality_alts :: regex where
  "quality_alts =
     alts [lit ''maj'', lit ''m'', lit ''dim'', lit ''aug'', lit ''sus'', lit ''add'', lit ''7'',
           lit '' maj7'', lit '' m7'', lit '' 9'', lit '' 11'', lit '' 13'']"

definition aboveFormat :: regex where
  "aboveFormat =
     seqs [Star (seqs [Atom (Chr CHR ''[''), Plus (Atom (NoneOf '']'')), Atom (Chr CHR '']''),
                       Star (Atom Space)]),
           seqs [Atom (Chr CHR ''[''), A_G, Opt sharp_flat, Opt quality_alts,
                 Star (seqs [Opt (Atom (Chr CHR '','')), Star (Atom Space), A_G, Opt sharp_flat,
                             Opt quality_alts]),
                 Atom (Chr CHR '']'')],
           Star (Atom Space), Eos]"

definition inlineFormat :: regex where
  "inlineFormat =
     seqs [Atom (Chr CHR ''[''), A_G, Opt sharp_flat, Opt quality_alts,
           Opt (seqs [Atom (Chr CHR ''/''), A_G, Opt sharp_flat]), Atom (Chr CHR '']'')]"

text \<open>\<open>/\[([A-G][#b]?[^\]]*)\]/g\<close>, the pattern replaced on a line of chords.\<close>

definition bracketed :: regex where
  "bracketed =
     seqs [Atom (Chr CHR ''[''), A_G, Opt sharp_flat, Star (Atom (NoneOf '']'')),
           Atom (Chr CHR '']'')]"

text \<open>The callback of both replacements: its group 1 is the match without its two brackets.\<close>

definition transposeBracket :: "int \<Rightarrow> string \<Rightarrow> error + string" where
  "transposeBracket semitones m =
     (let chord = butlast (tl m) in
      case transposeChord chord semitones False of
        Inl e \<Rightarrow> Inl e
      | Inr t \<Rightarrow> Inr (''['' @ t @ '']''))"

definition transposeLine :: "int \<Rightarrow> string \<Rightarrow> error + string" where
  "transposeLine semitones line =
     (if test_at_start False aboveFormat line then
        replace_all False bracketed (transposeBracket semitones) line
      else if test_search False inlineFormat line then
        replace_all False inlineFormat (transposeBracket semitones) line
      else Inr line)"

definition transposeLyrics :: "string \<Rightarrow> int \<Rightarrow> error + string" where
  "transposeLyrics lyrics semitones =
     (if semitones = 0 then Inr lyrics
      else
        (case map_err (transposeLine semitones) (split_lines lyrics) of
           Inl e \<Rightarrow> Inl e
         | Inr transposedLines \<Rightarrow> Inr (join_with [CHR 0x0A] transposedLines)))"

section \<open>Key detection\<close>

datatype Confidence = High | Medium | Low

record KeyDetectionResult =
  detectedKey :: string
  confidence :: Confidence
  possibleKeys :: "string list"

text \<open>
  \<open>chordCounts\<close> is an object literal used as a dictionary: its own properties in the order
  they were first assigned, each with its count. A count is \<open>Some n\<close> for the number \<open>n\<close> and
  \<open>None\<close> for a value that is no number: for a root named like a method of
  \<open>Object.prototype\<close> the read \<open>chordCounts[root]\<close> finds the inherited function, and adding 1 to
  it makes a string. An assignment to \<open>__proto__\<close> of a value that is no object is ignored, so
  that root never becomes a property.
\<close>

type_synonym counts = "(string \<times> nat option) list"

definition inherited_methods :: "string list" where
  "inherited_methods =
     [''constructor'', ''hasOwnProperty'', ''isPrototypeOf'', ''propertyIsEnumerable'',
      ''toLocaleString'', ''toString'', ''valueOf'', ''__defineGetter__'', ''__defineSetter__'',
      ''__lookupGetter__'', ''__lookupSetter__'']"

definition count_root :: "counts \<Rightarrow> string \<Rightarrow> counts" where
  "count_root chordCounts r =
     (case map_of chordCounts r of
        Some (Some n) \<Rightarrow> map (\<lambda>(k, v). if k = r then (k, Some (n + 1)) else (k, v)) chordCounts
      | Some None \<Rightarrow> chordCounts
      | None \<Rightarrow>
          if r = ''__proto__'' then chordCounts
          else if r \<in> set inherited_methods then chordCounts @ [(r, None)]
          else chordCounts @ [(r, Some 1)])"

text \<open>
  \<open>Object.entries\<close>: the keys that are array indices (the decimal text of a number below
  \<open>2^32 - 1\<close>) come first, in ascending order, then the other keys in the order of insertion.
\<close>

definition int_of_digits :: "string \<Rightarrow> int" where
  "int_of_digits k = foldl (\<lambda>n c. 10 * n + indexOf ''0123456789'' c) 0 k"

definition is_array_index :: "string \<Rightarrow> bool" where
  "is_array_index k =
     (k \<noteq> [] \<and> list_all (\<lambda>c. c \<in> set ''0123456789'') k \<and> (k = ''0'' \<or> hd k \<noteq> CHR ''0'')
      \<and> int_of_digits k < 4294967295)"

definition entries :: "counts \<Rightarrow> counts" where
  "entries obj =
     sort_key (\<lambda>(k, v). int_of_digits k) (filter (\<lambda>(k, v). is_array_index k) obj)
     @ filter (\<lambda>(k, v). \<not> is_array_index k) obj"

text \<open>
  \<open>xs.sort(cmp)\<close> is a stable sort. The comparator \<open>(a, b) => b[1] - a[1]\<close> is \<open>NaN\<close>, taken for 0,
  where a count is no number; the order of such entries is then the engine's own, and the model
  takes that of an insertion sort.
\<close>

fun insert_by :: "('a \<Rightarrow> 'a \<Rightarrow> int) \<Rightarrow> 'a \<Rightarrow> 'a list \<Rightarrow> 'a list" where
  "insert_by cmp x [] = [x]"
| "insert_by cmp x (y # ys) = (if cmp x y \<le> 0 then x # y # ys else y # insert_by cmp x ys)"

definition sort_by :: "('a \<Rightarrow> 'a \<Rightarrow> int) \<Rightarrow> 'a list \<Rightarrow> 'a list" where
  "sort_by cmp xs = foldr (insert_by cmp) xs []"

definition by_count_desc :: "string \<times> nat option \<Rightarrow> string \<times> nat option \<Rightarrow> int" where
  "by_count_desc a b =
     (case (snd b, snd a) of (Some x, Some y) \<Rightarrow> int x - int y | _ \<Rightarrow> 0)"

definition tally :: "string list \<Rightarrow> counts" where
  "tally chords = foldl (\<lambda>chordCounts chord. count_root chordCounts (root (parseChord chord))) [] chords"

definition sortedRoots :: "string list \<Rightarrow> string list" where
  "sortedRoots chords = map fst (sort_by by_count_desc (entries (tally chords)))"

definition hasMinor :: "string list \<Rightarrow> bool" where
  "hasMinor chords =
     list_ex (\<lambda>c. includes_str (toLowerCase c) ''m'' \<and> \<not> includes_str (toLowerCase c) ''maj'') chords"

definition hasMajor :: "string list \<Rightarrow> bool" where
  "hasMajor chords =
     list_ex (\<lambda>c. \<not> includes_str (toLowerCase c) ''m'' \<or> includes_str (toLowerCase c) ''maj'') chords"

definition keysOfRoot :: "string \<Rightarrow> error + string list" where
  "keysOfRoot r =
     (case getNoteIndex r of
        Inl e \<Rightarrow> Inl e
      | Inr rootIndex \<Rightarrow>
          Inr (map name (filter (\<lambda>k. index k = rootIndex) MAJOR_KEYS)
               @ map name (filter (\<lambda>k. index k = rootIndex) MINOR_KEYS)))"

text \<open>\<open>detectedKey.replace(/^(?!.*m)/, '')\<close>: where the lookahead holds, the empty match at the
  start is replaced by the empty text.\<close>

definition replace_unless_m :: "string \<Rightarrow> string" where
  "replace_unless_m d =
     (if rmatch False (Seq (Star (Atom Dot)) (Atom (Chr CHR ''m''))) d = [] then [] @ d else d)"

definition ensureMinor :: "string \<Rightarrow> string option \<Rightarrow> string" where
  "ensureMinor detected first =
     (let detected = replace_unless_m detected in
      if \<not> endsWith detected ''m'' then
        (case find (\<lambda>k. Some (replace_str (name k) ''m'' []) = first) MINOR_KEYS of
           Some minorVersion \<Rightarrow> name minorVersion
         | None \<Rightarrow> detected)
      else detected)"

definition confidenceOf :: "nat \<Rightarrow> Confidence" where
  "confidenceOf n = (if n > 10 then High else if n > 5 then Medium else Low)"

definition dedupe :: "string list \<Rightarrow> string list" where
  "dedupe keys =
     fst (foldl (\<lambda>(uniqueKeys, seen) key.
                   if key \<in> set seen then (uniqueKeys, seen) else (uniqueKeys @ [key], key # seen))
                ([], []) keys)"

definition detectKey :: "string list \<Rightarrow> error + KeyDetectionResult" where
  "detectKey chords =
     (if length chords = 0 then
        Inr \<lparr>detectedKey = ''C'', confidence = Low, possibleKeys = map name MAJOR_KEYS\<rparr>
      else
        (case map_err keysOfRoot (sortedRoots chords) of
           Inl e \<Rightarrow> Inl e
         | Inr keyLists \<Rightarrow>
             (let keys = concat keyLists;
                  first = (case keys of [] \<Rightarrow> None | k # _ \<Rightarrow> Some k);
                  detected = (case first of None \<Rightarrow> ''C'' | Some k \<Rightarrow> if k = [] then ''C'' else k);
                  detected = (if hasMinor chords \<and> \<not> hasMajor chords
                              then ensureMinor detected first else detected)
              in Inr \<lparr>detectedKey = detected,
                      confidence = confidenceOf (length chords),
                      possibleKeys = take 5 (dedupe keys)\<rparr>)))"

section \<open>Distance between keys\<close>

definition getSemitoneDistance :: "string \<Rightarrow> string \<Rightarrow> error + int" where
  "getSemitoneDistance fromKey toKey =
     (case getNoteIndex (replace_str (replace_str fromKey ''m'' []) ''#'' ''#'') of
        Inl e \<Rightarrow> Inl e
      | Inr fromIndex \<Rightarrow>
          (case getNoteIndex (replace_str (replace_str toKey ''m'' []) ''#'' ''#'') of
             Inl e \<Rightarrow> Inl e
           | Inr toIndex \<Rightarrow>
               (let distance = toIndex - fromIndex;
                    distance = (if distance > 6 then distance - 12 else distance);
                    distance = (if distance < - 6 then distance + 12 else distance)
                in Inr distance)))"

definition transposeKey :: "string \<Rightarrow> string \<Rightarrow> error + int" where
  "transposeKey fromKey toKey = getSemitoneDistance fromKey toKey"

definition getAllKeys :: "string list" where
  "getAllKeys = map name MAJOR_KEYS @ map name MINOR_KEYS"

section \<open>Validation\<close>

text \<open>The types of \<open>@/types\<close>. A \<open>ValidationError\<close> has the two fields of a
  \<open>ValidationWarning\<close> and a severity, and is declared as its extension.\<close>

datatype Severity = Critical | Major | Minor

record ValidationWarning =
  field :: string
  message :: string

record ValidationError = ValidationWarning +
  severity :: Severity

record ValidationResult =
  valid :: bool
  errors :: "ValidationError list"
  warnings :: "ValidationWarning list"

text \<open>\<open>id\<close> is a number, and \<open>!metadata.id\<close> holds of 0; a field marked optional in the
  interface is an option.\<close>

record SongMetadata =
  id_number :: int
  title :: string
  artist :: string
  album :: "string option"
  releaseDate :: "string option"
  headerImageUrl :: "string option"
  coverArtUrl :: "string option"
  url :: string

datatype SectionType = Intro | Verse | PreChorus | Chorus | Bridge | Outro | Other

record SongSection =
  section_type :: SectionType
  content :: string
  chords :: "string list option"
  isChorus :: "bool option"

definition MIN_LYRICS_LENGTH :: nat where
  "MIN_LYRICS_LENGTH = 100"

definition MIN_SECTIONS :: nat where
  "MIN_SECTIONS = 2"

definition TITLE_SIMILARITY_THRESHOLD :: rat where
  "TITLE_SIMILARITY_THRESHOLD = 9 / 10"

definition MAX_RETRIES :: int where
  "MAX_RETRIES = 2"

subsection \<open>Helper functions\<close>

text \<open>
  The edit distance, row by row as the two loops fill the matrix: \<open>lev_row c s2 prev left\<close> is
  the rest of row \<open>i\<close> from column \<open>j\<close> on, for \<open>c = s1[i - 1]\<close>, the rest \<open>s2\<close> of the second
  string from \<open>s2[j - 1]\<close>, the row above from column \<open>j - 1\<close> and \<open>left = matrix[i][j - 1]\<close>.
\<close>

fun lev_row :: "char \<Rightarrow> string \<Rightarrow> nat list \<Rightarrow> nat \<Rightarrow> nat list" where
  "lev_row c (d # ds) (diag # up # prev) left =
     (let cost = (if c = d then 0 else 1);
          v = min (up + 1) (min (left + 1) (diag + cost))
      in v # lev_row c ds (up # prev) v)"
| "lev_row c ds prev left = []"

fun lev_rows :: "string \<Rightarrow> string \<Rightarrow> nat list \<Rightarrow> nat \<Rightarrow> nat list" where
  "lev_rows [] s2 prev i = prev"
| "lev_rows (c # cs) s2 prev i = lev_rows cs s2 (i # lev_row c s2 prev i) (i + 1)"

definition levenshtein :: "string \<Rightarrow> string \<Rightarrow> nat" where
  "levenshtein s1 s2 = last (lev_rows s1 s2 [0 ..< length s2 + 1] 1)"

text \<open>The similarity is a double in the program; the model computes the same quotient in the
  rational numbers.\<close>

definition calculateStringSimilarity :: "string \<Rightarrow> string \<Rightarrow> rat" where
  "calculateStringSimilarity str1 str2 =
     (if str1 = str2 then 1
      else if length str1 = 0 \<or> length str2 = 0 then 0
      else
        let s1 = toLowerCase str1; s2 = toLowerCase str2 in
        if includes_str s1 s2 \<or> includes_str s2 s1 then 8 / 10
        else
          let distance = levenshtein s1 s2;
              maxLength = max (length s1) (length s2)
          in 1 - of_nat distance / of_nat maxLength)"

text \<open>\<open>Math.round\<close>: the nearest integer, a half rounded up.\<close>

definition Math_round :: "rat \<Rightarrow> int" where
  "Math_round x = \<lfloor>x + 1 / 2\<rfloor>"

text \<open>
  \<open>new URL(url)\<close> is the platform's parser and no code of the program: the validators take
  \<open>URL_protocol\<close> as a parameter, the protocol of the parsed URL, or \<open>None\<close> where the
  constructor throws.
\<close>

definition isValidUrl :: "(string \<Rightarrow> string option) \<Rightarrow> string \<Rightarrow> bool" where
  "isValidUrl URL_protocol u =
     (case URL_protocol u of
        None \<Rightarrow> False
      | Some protocol \<Rightarrow> protocol = ''http:'' \<or> protocol = ''https:'')"

definition isValidChord :: "string \<Rightarrow> bool" where
  "isValidChord chord =
     test_at_start True
       (seqs [A_G, Opt sharp_flat, Opt quality_alts,
              Opt (seqs [Atom (Chr CHR ''/''), A_G, Opt sharp_flat]), Eos])
       chord"

definition sectionPatterns :: "(SectionType \<times> regex) list" where
  "sectionPatterns =
     [(Intro, seqs [lit ''Intro'', Opt (Atom (Chr CHR '':'')), Star (Atom Space)]),
      (Verse, seqs [lit ''Verse'', Star (Atom Space), Star (Atom Digit), Opt (Atom (Chr CHR '':'')),
                    Star (Atom Space)]),
      (PreChorus, seqs [lit ''Pre-Chorus'', Opt (Atom (Chr CHR '':'')), Star (Atom Space)]),
      (Chorus, seqs [lit ''Chorus'', Opt (Atom (Chr CHR '':'')), Star (Atom Space)]),
      (Bridge, seqs [lit ''Bridge'', Opt (Atom (Chr CHR '':'')), Star (Atom Space)]),
      (Outro, seqs [lit ''Outro'', Opt (Atom (Chr CHR '':'')), Star (Atom Space)])]"

text \<open>One turn of the loop over the lines: the state is the list \<open>sections\<close> (here \<open>secs\<close>) and \<open>currentSection\<close>.\<close>

definition section_step ::
  "SongSection list \<times> SongSection \<Rightarrow> string \<Rightarrow> SongSection list \<times> SongSection" where
  "section_step st line =
     (case st of (secs, currentSection) \<Rightarrow>
        (case find (\<lambda>(t, pattern). test_at_start True pattern line) sectionPatterns of
           Some (t, pattern) \<Rightarrow>
             ((if trim (content currentSection) \<noteq> [] then secs @ [currentSection]
               else secs),
              \<lparr>section_type = t, content = [], chords = None, isChorus = Some (t = Chorus)\<rparr>)
         | None \<Rightarrow>
             if trim line \<noteq> [] then
               (secs,
                currentSection\<lparr>content :=
                  content currentSection
                  @ (if content currentSection \<noteq> [] then [CHR 0x0A] else []) @ line\<rparr>)
             else (secs, currentSection)))"

definition parseSections :: "string \<Rightarrow> SongSection list" where
  "parseSections lyrics =
     (case foldl section_step
             ([], \<lparr>section_type = Other, content = [], chords = None, isChorus = None\<rparr>)
             (split_lines lyrics) of
        (secs, currentSection) \<Rightarrow>
          if trim (content currentSection) \<noteq> [] then secs @ [currentSection] else secs)"

subsection \<open>Validation functions\<close>

definition validateMetadata ::
  "(string \<Rightarrow> string option) \<Rightarrow> SongMetadata \<Rightarrow> string option \<Rightarrow> ValidationResult" where
  "validateMetadata URL_protocol metadata expectedTitle =
     (let errs = [];
          warns = [];
          errs = (if id_number metadata = 0 then
                      errs @ [\<lparr>field = ''id'', message = ''Song ID is missing'',
                                 severity = Critical\<rparr>]
                    else errs);
          errs = (if title metadata = [] \<or> trim (title metadata) = [] then
                      errs @ [\<lparr>field = ''title'', message = ''Song title is missing or empty'',
                                 severity = Critical\<rparr>]
                    else errs);
          errs = (if artist metadata = [] \<or> trim (artist metadata) = [] then
                      errs @ [\<lparr>field = ''artist'', message = ''Artist name is missing or empty'',
                                 severity = Critical\<rparr>]
                    else errs);
          warns =
            (case expectedTitle of
               None \<Rightarrow> warns
             | Some expected \<Rightarrow>
                 if expected \<noteq> [] \<and> title metadata \<noteq> [] then
                   (let similarity = calculateStringSimilarity (toLowerCase (title metadata))
                                       (toLowerCase expected)
                    in if similarity < TITLE_SIMILARITY_THRESHOLD then
                         warns @ [\<lparr>field = ''title'',
                                      message = ''Title mismatch: '' @ [CHR 0x22] @ title metadata
                                        @ [CHR 0x22] @ '' vs '' @ [CHR 0x22] @ expected
                                        @ [CHR 0x22] @ '' (''
                                        @ show_int (Math_round (similarity * 100))
                                        @ ''% similar)''\<rparr>]
                       else warns)
                 else warns);
          errs = (if url metadata \<noteq> [] \<and> \<not> isValidUrl URL_protocol (url metadata) then
                      errs @ [\<lparr>field = ''url'', message = ''Invalid song URL'', severity = Major\<rparr>]
                    else errs)
      in \<lparr>valid = (length (filter (\<lambda>e. severity e = Critical) errs) = 0),
          errors = errs, warnings = warns\<rparr>)"

definition truncatedIndicators :: "regex list" where
  "truncatedIndicators =
     [seqs [lit ''See'', Plus (Atom Space), lit ''http'', Opt (Atom (Chr CHR ''s'')), lit ''://''],
      seqs [lit ''Full'', Plus (Atom Space), lit ''lyrics'', Plus (Atom Space), lit ''at''],
      seqs [lit '' Lyrics'', Eos],
      lit ''Translations'']"

definition validateLyrics :: "string \<Rightarrow> ValidationResult" where
  "validateLyrics lyrics =
     (if lyrics = [] \<or> trim lyrics = [] then
        \<lparr>valid = False,
         errors = [\<lparr>field = ''lyrics'', message = ''Lyrics are empty'', severity = Critical\<rparr>],
         warnings = []\<rparr>
      else
        let errs = [];
            warns = [];
            errs = (if length lyrics < MIN_LYRICS_LENGTH then
                        errs @ [\<lparr>field = ''lyrics'',
                                   message = ''Lyrics too short ('' @ show_nat (length lyrics)
                                     @ '' chars, minimum '' @ show_nat MIN_LYRICS_LENGTH @ '')'',
                                   severity = Critical\<rparr>]
                      else errs);
            warns = foldl (\<lambda>warns indicator.
                                if test_search True indicator lyrics then
                                  warns @ [\<lparr>field = ''lyrics'',
                                               message = ''Possible truncated lyrics detected''\<rparr>]
                                else warns)
                             warns truncatedIndicators;
            secs = parseSections lyrics;
            warns = (if length secs < MIN_SECTIONS then
                          warns @ [\<lparr>field = ''lyrics'',
                                       message = ''Only '' @ show_nat (length secs)
                                         @ '' section(s) detected, expected at least ''
                                         @ show_nat MIN_SECTIONS\<rparr>]
                        else warns)
        in \<lparr>valid = (length errs = 0), errors = errs, warnings = warns\<rparr>)"

record ValidateOptions =
  expectedTitle :: "string option"
  retryCount :: "int option"

text \<open>\<open>validateSong\<close> is declared \<open>async\<close> and awaits nothing: its promise resolves to the value
  computed here.\<close>

text \<open>\<open>options?.retryCount ?? 0\<close> and \<open>options?.expectedTitle\<close>.\<close>

definition retryCountOf :: "ValidateOptions option \<Rightarrow> int" where
  "retryCountOf options =
     (case options of
        None \<Rightarrow> 0
      | Some opts \<Rightarrow> (case retryCount opts of None \<Rightarrow> 0 | Some n \<Rightarrow> n))"

definition expectedTitleOf :: "ValidateOptions option \<Rightarrow> string option" where
  "expectedTitleOf options = (case options of None \<Rightarrow> None | Some opts \<Rightarrow> expectedTitle opts)"

definition validateSong ::
  "(string \<Rightarrow> string option) \<Rightarrow> SongMetadata \<Rightarrow> string \<Rightarrow> ValidateOptions option
     \<Rightarrow> ValidationResult" where
  "validateSong URL_protocol metadata lyrics options =
     (let retries = retryCountOf options;
          metadataResult = validateMetadata URL_protocol metadata (expectedTitleOf options)
      in if \<not> valid metadataResult \<and> retries \<ge> MAX_RETRIES then metadataResult
         else
           let lyricsResult = validateLyrics lyrics in
           if \<not> valid lyricsResult \<and> retries \<ge> MAX_RETRIES then lyricsResult
           else
             let combinedErrors = errors metadataResult @ errors lyricsResult;
                 combinedWarnings = warnings metadataResult @ warnings lyricsResult
             in \<lparr>valid = (length (filter (\<lambda>e. severity e = Critical) combinedErrors) = 0),
                 errors = combinedErrors, warnings = combinedWarnings\<rparr>)"

record ParsedSong =
  metadata :: SongMetadata
  sections :: "SongSection list"
  originalKey :: "string option"
  detectedChords :: "string list"

definition validateParsedSong ::
  "(string \<Rightarrow> string option) \<Rightarrow> ParsedSong \<Rightarrow> ValidationResult" where
  "validateParsedSong URL_protocol song =
     (let errs = [];
          warns = [];
          metadataResult = validateMetadata URL_protocol (metadata song) None;
          errs = errs @ errors metadataResult;
          warns = warns @ warnings metadataResult;
          errs = (if length (sections song) = 0 then
                      errs @ [\<lparr>field = ''sections'', message = ''No song sections found'',
                                 severity = Critical\<rparr>]
                    else errs);
          emptySections = filter (\<lambda>s. content s = [] \<or> trim (content s) = []) (sections song);
          warns = (if length emptySections > 0 then
                        warns @ [\<lparr>field = ''sections'',
                                     message = show_nat (length emptySections)
                                       @ '' empty section(s) found''\<rparr>]
                      else warns);
          warns =
            (if length (detectedChords song) > 0 then
               (let invalidChords = filter (\<lambda>c. \<not> isValidChord c) (detectedChords song) in
                if length invalidChords > 0 then
                  warns @ [\<lparr>field = ''chords'',
                               message = show_nat (length invalidChords)
                                 @ '' invalid chord(s) detected: '' @ join_with '', '' invalidChords\<rparr>]
                else warns)
             else warns)
      in \<lparr>valid = (length (filter (\<lambda>e. severity e = Critical) errs) = 0),
          errors = errs, warnings = warns\<rparr>)"

section \<open>Shift zero\<close>

text \<open>
  C8: a shift of zero semitones is the identity. \<open>transposeChord\<close> returns the chord it was
  given, whatever the chord and the spelling flag; \<open>transposeLyrics\<close> returns the text it was
  given; \<open>transposeChords\<close> returns the list it was given, without calling \<open>transposeChord\<close> on
  its elements. None of the three can throw at shift zero.
\<close>

theorem zero_shift_identity:
  "transposeChord c 0 useFlats = Inr c
   \<and> transposeLyrics t 0 = Inr t
   \<and> transposeChords l 0 = Inr l"
  by (simp add: transposeChord_def transposeLyrics_def transposeChords_def)

section \<open>The note lookup\<close>

lemma getNoteIndex_fails_iff:
  "(\<exists>e. getNoteIndex note = Inl e) \<longleftrightarrow> indexOf NOTES (normalizeToSharp note) = - 1"
  by (simp add: getNoteIndex_def Let_def)

text \<open>
  C1: the lookup of a flat spelling. The table of \<open>normalizeToSharp\<close> sends \<open>Db\<close> to the
  lower-case \<open>c#\<close>, which is no element of \<open>NOTES\<close>: \<open>getNoteIndex\<close> throws on each of Db, Eb,
  Gb, Ab and Bb, and \<open>transposeChord\<close> throws on a chord with such a root.
\<close>

theorem flat_spellings_are_invalid_notes:
  "map getNoteIndex [''Db'', ''Eb'', ''Gb'', ''Ab'', ''Bb''] =
     [Inl (InvalidNote ''Db''), Inl (InvalidNote ''Eb''), Inl (InvalidNote ''Gb''),
      Inl (InvalidNote ''Ab''), Inl (InvalidNote ''Bb'')]
   \<and> normalizeToSharp ''Db'' = ''c#''
   \<and> transposeChord ''Db'' 1 False = Inl (InvalidNote ''Db'')
   \<and> transposeChord ''Bbm7'' 2 False = Inl (InvalidNote ''Bb'')"
  by code_simp

section \<open>Chord-shaped text\<close>

text \<open>
  C2: \<open>isChord\<close> on a root with a recognised suffix. The alternatives for 7, maj7, m7, 9, 11
  and 13 of the first pattern begin with a space, and the second pattern asks for the literal
  text \<open>A-G]\<close> after the slash: \<open>isChord\<close> is false on C7, Cmaj7, Am7 and C/E, and true on the
  same suffixes written after a space.
\<close>

theorem isChord_rejects_sevenths_and_slash_chords:
  "isChord ''C7'' = False \<and> isChord ''Cmaj7'' = False \<and> isChord ''Am7'' = False
   \<and> isChord ''C/E'' = False \<and> isChord ''C9'' = False \<and> isChord ''C13'' = False
   \<and> isChord ''C 7'' = True \<and> isChord ''C maj7'' = True \<and> isChord ''C/A-G]'' = True
   \<and> isChord ''Cm'' = True"
  by code_simp

section \<open>Distance between keys\<close>

lemma getSemitoneDistance_antisymmetric:
  "getSemitoneDistance a b = Inr d \<Longrightarrow> \<exists>d'. getSemitoneDistance b a = Inr d' \<and> d = - d'"
  by (auto simp add: getSemitoneDistance_def Let_def split: sum.splits if_splits)

lemma indexOf_range: "indexOf xs x = k \<Longrightarrow> - 1 \<le> k \<and> k < int (length xs)"
  by (induction xs arbitrary: k) (auto simp add: Let_def split: if_splits)

lemma getNoteIndex_range: "getNoteIndex note = Inr k \<Longrightarrow> 0 \<le> k \<and> k < 12"
  using indexOf_range [of NOTES "normalizeToSharp note" "indexOf NOTES (normalizeToSharp note)"]
  by (auto simp add: getNoteIndex_def Let_def NOTES_def split: if_splits)

lemma getSemitoneDistance_range:
  "getSemitoneDistance a b = Inr d \<Longrightarrow> - 6 \<le> d \<and> d \<le> 6"
  by (auto simp add: getSemitoneDistance_def Let_def split: sum.splits if_splits
      dest!: getNoteIndex_range)

text \<open>
  C5: the distance between two key names. The four major keys with a flat in their name (Db,
  Ab, Eb, Bb) are no notes to \<open>getNoteIndex\<close>, so \<open>getSemitoneDistance\<close> throws where either key
  is one of them; between the other key names it returns, and the two lemmas above give the
  symmetry and the range.
\<close>

theorem getSemitoneDistance_throws_on_flat_keys:
  "getSemitoneDistance ''C'' ''Db'' = Inl (InvalidNote ''Db'')
   \<and> getSemitoneDistance ''Db'' ''C'' = Inl (InvalidNote ''Db'')
   \<and> getSemitoneDistance ''Am'' ''Bb'' = Inl (InvalidNote ''Bb'')
   \<and> ''Db'' \<in> set getAllKeys \<and> ''Bb'' \<in> set getAllKeys
   \<and> getSemitoneDistance ''C'' ''F#'' = Inr 6 \<and> getSemitoneDistance ''F#'' ''C'' = Inr (- 6)"
  by code_simp

section \<open>Validation results\<close>

lemma validateMetadata_valid:
  "valid (validateMetadata U m t) = (\<forall>e \<in> set (errors (validateMetadata U m t)). severity e \<noteq> Critical)"
  by (simp add: validateMetadata_def Let_def filter_empty_conv)

lemma validateLyrics_valid:
  "valid (validateLyrics l) = (\<forall>e \<in> set (errors (validateLyrics l)). severity e \<noteq> Critical)"
  by (simp add: validateLyrics_def Let_def)

lemma validateParsedSong_valid:
  "valid (validateParsedSong U song) = (\<forall>e \<in> set (errors (validateParsedSong U song)). severity e \<noteq> Critical)"
  by (simp add: validateParsedSong_def Let_def filter_empty_conv)

lemma validateSong_valid:
  "valid (validateSong U m l opts) = (\<forall>e \<in> set (errors (validateSong U m l opts)). severity e \<noteq> Critical)"
  by (simp add: validateSong_def Let_def filter_empty_conv validateMetadata_valid validateLyrics_valid)

lemma validateMetadata_errors_indep:
  "errors (validateMetadata U m t) = errors (validateMetadata U m t')"
  by (simp add: validateMetadata_def Let_def)

lemma validateSong_valid_parts:
  "valid (validateSong U m l opts) \<Longrightarrow> valid (validateMetadata U m (expectedTitleOf opts)) \<and> valid (validateLyrics l)"
  by (auto simp add: validateSong_def Let_def filter_empty_conv validateMetadata_valid validateLyrics_valid split: if_splits)

lemma validateParsedSong_valid_parts:
  "valid (validateParsedSong U song) \<Longrightarrow> valid (validateMetadata U (metadata song) None) \<and> sections song \<noteq> []"
  by (auto simp add: validateParsedSong_def Let_def filter_empty_conv validateMetadata_valid split: if_splits)

text \<open>
  C3: every result of \<open>validateMetadata\<close>, \<open>validateLyrics\<close>, \<open>validateParsedSong\<close> and
  \<open>validateSong\<close> is valid exactly when none of its errors is critical. So a critical error
  in a part makes the whole invalid: a valid result of \<open>validateSong\<close> has a valid metadata
  check and a valid lyrics check, and a valid result of \<open>validateParsedSong\<close> has a valid
  metadata check and at least one section. The expected title, which decides a warning only,
  changes neither the errors nor the validity of \<open>validateMetadata\<close>.
\<close>

theorem valid_iff_no_critical_error:
  "(r = validateMetadata U m t \<or> r = validateLyrics l \<or> r = validateParsedSong U song
      \<or> r = validateSong U m l opts
    \<longrightarrow> valid r = (\<forall>e \<in> set (errors r). severity e \<noteq> Critical))
   \<and> (valid (validateSong U m l opts)
        \<longrightarrow> valid (validateMetadata U m (expectedTitleOf opts)) \<and> valid (validateLyrics l))
   \<and> (valid (validateParsedSong U song)
        \<longrightarrow> valid (validateMetadata U (metadata song) None) \<and> sections song \<noteq> [])
   \<and> errors (validateMetadata U m t) = errors (validateMetadata U m t')
   \<and> valid (validateMetadata U m t) = valid (validateMetadata U m t')"
proof -
  have "valid (validateMetadata U m t) = valid (validateMetadata U m t')"
    using validateMetadata_errors_indep [of U m t t']
    by (simp add: validateMetadata_valid)
  then show ?thesis
    using validateMetadata_valid [of U m t] validateLyrics_valid [of l]
      validateParsedSong_valid [of U song] validateSong_valid [of U m l opts]
      validateSong_valid_parts [of U m l opts] validateParsedSong_valid_parts [of U song]
      validateMetadata_errors_indep [of U m t t']
    by blast
qed

theorem valid_iff_no_critical_error_witness:
  "valid (validateSong (\<lambda>u. Some ''https:'')
       \<lparr>id_number = 7, title = ''Song'', artist = ''Band'', album = None, releaseDate = None,
        headerImageUrl = None, coverArtUrl = None, url = ''https://genius.com/s''\<rparr>
       (replicate 120 CHR ''a'') None)
   \<and> valid (validateLyrics (replicate 120 CHR ''a''))
   \<and> valid (validateParsedSong (\<lambda>u. Some ''https:'')
       \<lparr>metadata = \<lparr>id_number = 7, title = ''Song'', artist = ''Band'', album = None, releaseDate = None,
        headerImageUrl = None, coverArtUrl = None, url = ''https://genius.com/s''\<rparr>,
        sections = [\<lparr>section_type = Verse, content = ''la'', chords = None, isChorus = None\<rparr>],
        originalKey = None, detectedChords = []\<rparr>)
   \<and> \<not> valid (validateLyrics [])
   \<and> (\<exists>e \<in> set (errors (validateLyrics [])). severity e = Critical)"
proof -
  let ?U = "\<lambda>u::string. Some ''https:''"
  let ?m = "\<lparr>id_number = 7, title = ''Song'', artist = ''Band'', album = None, releaseDate = None,
        headerImageUrl = None, coverArtUrl = None, url = ''https://genius.com/s''\<rparr>"
  let ?l = "replicate 120 CHR ''a''"
  let ?song = "\<lparr>metadata = ?m,
        sections = [\<lparr>section_type = Verse, content = ''la'', chords = None, isChorus = None\<rparr>],
        originalKey = None, detectedChords = []\<rparr>"
  have a: "valid (validateSong ?U ?m ?l None)" by code_simp
  have b: "valid (validateParsedSong ?U ?song)" by code_simp
  have c: "\<not> valid (validateLyrics [])" by code_simp
  note t1 = valid_iff_no_critical_error [of "validateLyrics []" ?U ?m None ?l ?song None None]
  note t2 = valid_iff_no_critical_error [of "validateLyrics []" ?U ?m None "[]" ?song None None]
  from t1 a have d: "valid (validateLyrics ?l)" by blast
  from t2 c have e: "\<exists>e \<in> set (errors (validateLyrics [])). severity e = Critical" by blast
  from a b c d e show ?thesis by blast
qed

lemma validateSong_early_metadata:
  "\<not> valid (validateMetadata U m (expectedTitleOf opts)) \<Longrightarrow> 2 \<le> retryCountOf opts
   \<Longrightarrow> validateSong U m l opts = validateMetadata U m (expectedTitleOf opts)"
  by (simp add: validateSong_def Let_def MAX_RETRIES_def)

lemma validateSong_early_lyrics:
  "valid (validateMetadata U m (expectedTitleOf opts)) \<Longrightarrow> \<not> valid (validateLyrics l)
   \<Longrightarrow> 2 \<le> retryCountOf opts \<Longrightarrow> validateSong U m l opts = validateLyrics l"
  by (simp add: validateSong_def Let_def MAX_RETRIES_def)

lemma validateSong_union:
  "retryCountOf opts < 2
     \<or> (valid (validateMetadata U m (expectedTitleOf opts)) \<and> valid (validateLyrics l))
   \<Longrightarrow> validateSong U m l opts =
       \<lparr>valid = (\<forall>e \<in> set (errors (validateMetadata U m (expectedTitleOf opts))
                            @ errors (validateLyrics l)). severity e \<noteq> Critical),
        errors = errors (validateMetadata U m (expectedTitleOf opts)) @ errors (validateLyrics l),
        warnings = warnings (validateMetadata U m (expectedTitleOf opts))
                     @ warnings (validateLyrics l)\<rparr>"
  by (auto simp add: validateSong_def Let_def MAX_RETRIES_def filter_empty_conv)

text \<open>
  C7: \<open>validateSong\<close> checks the metadata, then the lyrics. With a retry count of at least 2
  (\<open>MAX_RETRIES\<close>): an invalid metadata check is returned as it is; if the metadata check is
  valid, an invalid lyrics check is returned as it is. Otherwise (a retry count below 2, or
  both checks valid) the result holds the errors of both checks, metadata first, the warnings
  of both, and is valid exactly when no error of the two is critical. A missing options
  object or retry count counts as 0.
\<close>

theorem validateSong_early_exit_or_union:
  "(\<not> valid (validateMetadata U m (expectedTitleOf opts)) \<and> 2 \<le> retryCountOf opts
      \<longrightarrow> validateSong U m l opts = validateMetadata U m (expectedTitleOf opts))
   \<and> (valid (validateMetadata U m (expectedTitleOf opts)) \<and> \<not> valid (validateLyrics l)
        \<and> 2 \<le> retryCountOf opts
      \<longrightarrow> validateSong U m l opts = validateLyrics l)
   \<and> (retryCountOf opts < 2
        \<or> (valid (validateMetadata U m (expectedTitleOf opts)) \<and> valid (validateLyrics l))
      \<longrightarrow> validateSong U m l opts =
            \<lparr>valid = (\<forall>e \<in> set (errors (validateMetadata U m (expectedTitleOf opts))
                                 @ errors (validateLyrics l)). severity e \<noteq> Critical),
             errors = errors (validateMetadata U m (expectedTitleOf opts))
                        @ errors (validateLyrics l),
             warnings = warnings (validateMetadata U m (expectedTitleOf opts))
                          @ warnings (validateLyrics l)\<rparr>)
   \<and> retryCountOf None = 0
   \<and> retryCountOf (Some \<lparr>expectedTitle = t, retryCount = None\<rparr>) = 0
   \<and> retryCountOf (Some \<lparr>expectedTitle = t, retryCount = Some n\<rparr>) = n
   \<and> MAX_RETRIES = 2"
  using validateSong_early_metadata [of U m opts l] validateSong_early_lyrics [of U m opts l]
    validateSong_union [of opts U m l]
  by (simp add: retryCountOf_def MAX_RETRIES_def)

theorem validateSong_early_exit_or_union_witness:
  "validateSong (\<lambda>u. None)
       \<lparr>id_number = 0, title = ''Song'', artist = ''Band'', album = None, releaseDate = None,
        headerImageUrl = None, coverArtUrl = None, url = []\<rparr>
       ''la'' (Some \<lparr>expectedTitle = None, retryCount = Some 2\<rparr>)
     = \<lparr>valid = False,
        errors = [\<lparr>field = ''id'', message = ''Song ID is missing'', severity = Critical\<rparr>],
        warnings = []\<rparr>
   \<and> validateSong (\<lambda>u. None)
       \<lparr>id_number = 7, title = ''Song'', artist = ''Band'', album = None, releaseDate = None,
        headerImageUrl = None, coverArtUrl = None, url = []\<rparr>
       [] (Some \<lparr>expectedTitle = None, retryCount = Some 3\<rparr>)
     = \<lparr>valid = False,
        errors = [\<lparr>field = ''lyrics'', message = ''Lyrics are empty'', severity = Critical\<rparr>],
        warnings = []\<rparr>
   \<and> validateSong (\<lambda>u. None)
       \<lparr>id_number = 0, title = ''Song'', artist = ''Band'', album = None, releaseDate = None,
        headerImageUrl = None, coverArtUrl = None, url = []\<rparr>
       [] None
     = \<lparr>valid = False,
        errors = [\<lparr>field = ''id'', message = ''Song ID is missing'', severity = Critical\<rparr>,
                  \<lparr>field = ''lyrics'', message = ''Lyrics are empty'', severity = Critical\<rparr>],
        warnings = []\<rparr>"
proof -
  let ?U = "\<lambda>u::string. None :: string option"
  let ?bad = "\<lparr>id_number = 0, title = ''Song'', artist = ''Band'', album = None,
        releaseDate = None, headerImageUrl = None, coverArtUrl = None, url = []\<rparr>"
  let ?good = "\<lparr>id_number = 7, title = ''Song'', artist = ''Band'', album = None,
        releaseDate = None, headerImageUrl = None, coverArtUrl = None, url = []\<rparr>"
  let ?o2 = "Some \<lparr>expectedTitle = None, retryCount = Some 2\<rparr>"
  let ?o3 = "Some \<lparr>expectedTitle = None, retryCount = Some 3\<rparr>"
  have mb2: "validateMetadata ?U ?bad (expectedTitleOf ?o2) =
      \<lparr>valid = False,
       errors = [\<lparr>field = ''id'', message = ''Song ID is missing'', severity = Critical\<rparr>],
       warnings = []\<rparr>" by code_simp
  have mbn: "validateMetadata ?U ?bad (expectedTitleOf None) =
      \<lparr>valid = False,
       errors = [\<lparr>field = ''id'', message = ''Song ID is missing'', severity = Critical\<rparr>],
       warnings = []\<rparr>" by code_simp
  have mg: "valid (validateMetadata ?U ?good (expectedTitleOf ?o3))" by code_simp
  have ly: "validateLyrics [] =
      \<lparr>valid = False,
       errors = [\<lparr>field = ''lyrics'', message = ''Lyrics are empty'', severity = Critical\<rparr>],
       warnings = []\<rparr>" by code_simp
  have r2: "2 \<le> retryCountOf ?o2" and r3: "2 \<le> retryCountOf ?o3" and r0: "retryCountOf None < 2"
    by (simp_all add: retryCountOf_def)
  have vb: "\<not> valid (validateMetadata ?U ?bad (expectedTitleOf ?o2))"
    by (simp add: mb2)
  have vl: "\<not> valid (validateLyrics [])"
    by (simp add: ly)
  have one: "validateSong ?U ?bad ''la'' ?o2 = validateMetadata ?U ?bad (expectedTitleOf ?o2)"
    using validateSong_early_exit_or_union [of ?U ?bad ?o2 "''la''"] vb r2 by blast
  have two: "validateSong ?U ?good [] ?o3 = validateLyrics []"
    using validateSong_early_exit_or_union [of ?U ?good ?o3 "[]"] mg vl r3 by blast
  have three: "validateSong ?U ?bad [] None =
      \<lparr>valid = (\<forall>e \<in> set (errors (validateMetadata ?U ?bad (expectedTitleOf None))
                            @ errors (validateLyrics [])). severity e \<noteq> Critical),
       errors = errors (validateMetadata ?U ?bad (expectedTitleOf None)) @ errors (validateLyrics []),
       warnings = warnings (validateMetadata ?U ?bad (expectedTitleOf None))
                    @ warnings (validateLyrics [])\<rparr>"
    using validateSong_early_exit_or_union [of ?U ?bad None "[]"] r0 by blast
  show ?thesis
    unfolding one two three mb2 mbn ly by simp
qed


section \<open>Key detection\<close>

text \<open>
  C6: the detected key of chords that are all minor. The minor key is looked up by comparing
  the minor names without their \<open>m\<close>, which are sharp spellings, with the first candidate, a
  major name: for a root whose major key has a flat name (C#, D#, G#, A#: Db, Eb, Ab, Bb) no
  minor name fits, and \<open>detectKey\<close> returns the major name. For the root A it returns Am.
\<close>

theorem detectKey_all_minor_returns_major_name:
  "detectKey [''C#m''] =
     Inr \<lparr>detectedKey = ''Db'', confidence = Low, possibleKeys = [''Db'', ''C#m'']\<rparr>
   \<and> hasMinor [''C#m''] \<and> \<not> hasMajor [''C#m'']
   \<and> detectKey [''G#m'', ''D#m'', ''G#m''] =
     Inr \<lparr>detectedKey = ''Ab'', confidence = Low,
          possibleKeys = [''Ab'', ''G#m'', ''Eb'', ''D#m'']\<rparr>
   \<and> detectKey [''Am''] =
     Inr \<lparr>detectedKey = ''Am'', confidence = Low, possibleKeys = [''A'', ''Am'']\<rparr>"
  by code_simp

theorem detectKey_all_minor_returns_major_name_witness:
  "\<exists>cs r. cs \<noteq> [] \<and> hasMinor cs \<and> \<not> hasMajor cs \<and> detectKey cs = Inr r
          \<and> \<not> endsWith (detectedKey r) ''m''"
proof -
  have "\<not> endsWith ''Db'' ''m''" by code_simp
  with detectKey_all_minor_returns_major_name
  have "[''C#m''] \<noteq> [] \<and> hasMinor [''C#m''] \<and> \<not> hasMajor [''C#m'']
        \<and> detectKey [''C#m''] =
            Inr \<lparr>detectedKey = ''Db'', confidence = Low, possibleKeys = [''Db'', ''C#m'']\<rparr>
        \<and> \<not> endsWith (detectedKey \<lparr>detectedKey = ''Db'', confidence = Low,
                                         possibleKeys = [''Db'', ''C#m'']\<rparr>) ''m''"
    by simp
  then show ?thesis by blast
qed

subsection \<open>The roots that are looked up\<close>

lemma fst_count_root:
  "fst ` set (count_root cs r) =
     (if r = ''__proto__'' then fst ` set cs else insert r (fst ` set cs))"
proof (cases "map_of cs r")
  case None
  then show ?thesis by (auto simp add: count_root_def)
next
  case (Some v)
  then have "(r, v) \<in> set cs" by (rule map_of_SomeD)
  then have in_cs: "r \<in> fst ` set cs" by force
  show ?thesis
  proof (cases v)
    case None
    with Some in_cs show ?thesis by (auto simp add: count_root_def)
  next
    case (Some n)
    have "fst ` set (map (\<lambda>(k, v). if k = r then (k, Some (n + 1)) else (k, v)) cs) = fst ` set cs"
      by (induction cs) (auto split: if_splits)
    with Some \<open>map_of cs r = Some v\<close> in_cs show ?thesis by (auto simp add: count_root_def)
  qed
qed

lemma fst_foldl_count_root:
  "fst ` set (foldl (\<lambda>counts chord. count_root counts (root (parseChord chord))) cts cs) =
     fst ` set cts \<union> ((\<lambda>c. root (parseChord c)) ` set cs - {''__proto__''})"
  by (induction cs arbitrary: cts) (auto simp add: fst_count_root)

lemma set_entries: "set (entries obj) = set obj"
  by (auto simp add: entries_def)

lemma set_insert_by: "set (insert_by cmp x ys) = insert x (set ys)"
  by (induction ys) auto

lemma set_sort_by: "set (sort_by cmp xs) = set xs"
  by (induction xs) (auto simp add: sort_by_def set_insert_by)

lemma set_sortedRoots:
  "set (sortedRoots cs) = (\<lambda>c. root (parseChord c)) ` set cs - {''__proto__''}"
  using fst_foldl_count_root [of "[]" cs]
  by (simp add: sortedRoots_def tally_def set_sort_by set_entries)

lemma map_err_Inl: "map_err f xs = Inl e \<Longrightarrow> \<exists>x \<in> set xs. f x = Inl e"
  by (induction xs) (auto split: sum.splits)

lemma map_err_fails: "x \<in> set xs \<Longrightarrow> f x = Inl e \<Longrightarrow> \<exists>e'. map_err f xs = Inl e'"
  by (induction xs) (auto split: sum.splits)

lemma map_err_succeeds: "(\<And>x. x \<in> set xs \<Longrightarrow> \<exists>y. f x = Inr y) \<Longrightarrow> \<exists>ys. map_err f xs = Inr ys"
proof (induction xs)
  case Nil
  then show ?case by simp
next
  case (Cons a xs)
  then obtain y where "f a = Inr y" by force
  moreover from Cons obtain ys where "map_err f xs = Inr ys" by force
  ultimately show ?case by simp
qed

lemma keysOfRoot_Inl: "keysOfRoot r = Inl e \<longleftrightarrow> getNoteIndex r = Inl e"
  by (simp add: keysOfRoot_def split: sum.splits)

lemma getNoteIndex_Inl: "getNoteIndex r = Inl e \<Longrightarrow> e = InvalidNote r"
  by (auto simp add: getNoteIndex_def Let_def split: if_splits)

lemma detectKey_throws:
  assumes "c \<in> set cs" and "root (parseChord c) \<noteq> ''__proto__''"
    and "getNoteIndex (root (parseChord c)) = Inl e"
  shows "\<exists>n. detectKey cs = Inl (InvalidNote n)"
proof -
  from assms(1,2) have "root (parseChord c) \<in> set (sortedRoots cs)"
    by (simp add: set_sortedRoots)
  moreover from assms(3) have "keysOfRoot (root (parseChord c)) = Inl e"
    by (simp add: keysOfRoot_Inl)
  ultimately obtain e' where e': "map_err keysOfRoot (sortedRoots cs) = Inl e'"
    using map_err_fails [of "root (parseChord c)" "sortedRoots cs" keysOfRoot e] by auto
  then obtain x where "keysOfRoot x = Inl e'"
    using map_err_Inl [of keysOfRoot "sortedRoots cs" e'] by auto
  then have "e' = InvalidNote x"
    by (simp add: keysOfRoot_Inl getNoteIndex_Inl)
  moreover from assms(1) have "cs \<noteq> []" by auto
  ultimately show ?thesis using e' by (simp add: detectKey_def)
qed

lemma detectKey_returns:
  assumes "\<And>c. c \<in> set cs \<Longrightarrow> \<exists>k. getNoteIndex (root (parseChord c)) = Inr k"
  shows "\<exists>r. detectKey cs = Inr r"
proof -
  have "\<exists>ys. map_err keysOfRoot (sortedRoots cs) = Inr ys"
  proof (rule map_err_succeeds)
    fix x assume "x \<in> set (sortedRoots cs)"
    then obtain c where "c \<in> set cs" "x = root (parseChord c)"
      by (auto simp add: set_sortedRoots)
    with assms obtain k where "getNoteIndex x = Inr k" by blast
    then show "\<exists>y. keysOfRoot x = Inr y" by (simp add: keysOfRoot_def)
  qed
  then show ?thesis by (auto simp add: detectKey_def Let_def)
qed

lemma detectKey_confidence:
  assumes "detectKey cs = Inr r"
  shows "confidence r = confidenceOf (length cs)"
proof (cases "cs = []")
  case True
  with assms show ?thesis by (auto simp add: detectKey_def confidenceOf_def)
next
  case False
  show ?thesis
  proof (cases "map_err keysOfRoot (sortedRoots cs)")
    case (Inl e)
    with assms False show ?thesis by (simp add: detectKey_def)
  next
    case (Inr keyLists)
    with assms False show ?thesis
      unfolding detectKey_def Let_def by (clarsimp split: if_splits)
  qed
qed

lemma indexOf_notin: "indexOf xs x = - 1 \<longleftrightarrow> x \<notin> set xs"
proof (induction xs)
  case Nil
  then show ?case by simp
next
  case (Cons a xs)
  have "- 1 \<le> indexOf xs x" using indexOf_range [of xs x] by simp
  with Cons show ?case by (auto simp add: Let_def)
qed

lemma getNoteIndex_Inl_iff:
  "(\<exists>e. getNoteIndex r = Inl e) \<longleftrightarrow> normalizeToSharp r \<notin> set NOTES"
  by (simp add: getNoteIndex_def Let_def indexOf_notin)

lemma trim_keeps_head:
  assumes "t \<noteq> []" and "\<not> is_space (hd t)"
  shows "trim t \<noteq> [] \<and> hd (trim t) = hd t"
proof -
  from assms obtain x u where t: "t = x # u" and x: "\<not> is_space x"
    by (cases t) auto
  have "dropWhile is_space (rev u @ [x]) = dropWhile is_space (rev u) @ [x]"
    using x by (induction "rev u" arbitrary: u) (auto simp add: dropWhile_append)
  then have "trim t = x # rev (dropWhile is_space (rev u))"
    using x by (simp add: trim_def t)
  then show ?thesis by (simp add: t)
qed

lemma chordRegex_needs_root_letter:
  assumes "s = [] \<or> hd s \<notin> set ''ABCDEFG''"
  shows "chordRegex s = None"
proof -
  have "rmatch False note_rx s = []"
    using assms by (cases s) (auto simp add: note_rx_def A_G_def canon_def)
  then show ?thesis by (simp add: chordRegex_def grp_def)
qed

lemma root_letter_cases:
  assumes "c \<in> set ''ABCDEFG''"
  obtains "c = CHR ''A''" | "c = CHR ''B''" | "c = CHR ''C''" | "c = CHR ''D''"
    | "c = CHR ''E''" | "c = CHR ''F''" | "c = CHR ''G''"
  using assms by auto

lemma upper_of_root_letter:
  assumes "c \<in> set ''ABCDEFG''"
  shows "toUpperCase_char c = c"
  using assms by (rule root_letter_cases) (simp_all add: toUpperCase_char_def latin1_lower_def)

lemma unparsed_token:
  assumes "t \<noteq> []" and "\<not> is_space (hd t)" and "toUpperCase_char (hd t) \<notin> set ''ABCDEFG''"
  shows "root (parseChord t) = t \<and> normalizeToSharp t \<notin> set NOTES"
proof
  from assms(3) have "hd t \<notin> set ''ABCDEFG''"
    using upper_of_root_letter [of "hd t"] by metis
  with assms(1,2) have "chordRegex (trim t) = None"
    using trim_keeps_head [of t] chordRegex_needs_root_letter [of "trim t"] by simp
  then show "root (parseChord t) = t" by (simp add: parseChord_def)
next
  from assms(1) obtain x u where t: "t = x # u" by (cases t) auto
  show "normalizeToSharp t \<notin> set NOTES"
  proof (cases "map_of flatMap (toLowerCase t)")
    case None
    then have "normalizeToSharp t = toUpperCase_char x # replace_str u ''#'' ''#''"
      by (simp add: normalizeToSharp_def t toUpperCase_def)
    moreover have "toUpperCase_char x \<notin> set ''ABCDEFG''" using assms(3) t by simp
    ultimately show ?thesis by (auto simp add: NOTES_def)
  next
    case (Some v)
    then have "(toLowerCase t, v) \<in> set flatMap" by (rule map_of_SomeD)
    then have "v \<in> set [''c#'', ''d#'', ''f#'', ''g#'', ''a#'', ''b'', ''e'']"
      by (auto simp add: flatMap_def)
    moreover have "normalizeToSharp t = v" using Some by (simp add: normalizeToSharp_def)
    ultimately show ?thesis by (auto simp add: NOTES_def)
  qed
qed

text \<open>
  C9: the confidence of a detected key depends on the number of chords only. Whenever
  \<open>detectKey\<close> returns, its confidence is low for at most 5 chords, medium for 6 to 10 and
  high for more than 10; it returns whenever the root of every chord is a note
  \<open>getNoteIndex\<close> knows. The eight chords C, Am, F, G, C, Am, F, G give the key C with medium
  confidence and the candidates C, Cm, A, Am, F.
\<close>

theorem detectKey_confidence_by_length:
  "(\<forall>r. detectKey cs = Inr r
        \<longrightarrow> confidence r = (if length cs \<le> 5 then Low else if length cs \<le> 10 then Medium else High))
   \<and> ((\<forall>c \<in> set cs. \<not> isl (getNoteIndex (root (parseChord c)))) \<longrightarrow> (\<exists>r. detectKey cs = Inr r))
   \<and> detectKey [''C'', ''Am'', ''F'', ''G'', ''C'', ''Am'', ''F'', ''G''] =
       Inr \<lparr>detectedKey = ''C'', confidence = Medium,
            possibleKeys = [''C'', ''Cm'', ''A'', ''Am'', ''F'']\<rparr>"
proof (intro conjI allI impI)
  fix r assume "detectKey cs = Inr r"
  then show "confidence r = (if length cs \<le> 5 then Low else if length cs \<le> 10 then Medium else High)"
    by (simp add: detectKey_confidence confidenceOf_def)
next
  assume a: "\<forall>c \<in> set cs. \<not> isl (getNoteIndex (root (parseChord c)))"
  show "\<exists>r. detectKey cs = Inr r"
  proof (rule detectKey_returns)
    fix c assume "c \<in> set cs"
    with a have "\<not> isl (getNoteIndex (root (parseChord c)))" by blast
    then show "\<exists>k. getNoteIndex (root (parseChord c)) = Inr k"
      by (cases "getNoteIndex (root (parseChord c))") auto
  qed
next
  show "detectKey [''C'', ''Am'', ''F'', ''G'', ''C'', ''Am'', ''F'', ''G''] =
       Inr \<lparr>detectedKey = ''C'', confidence = Medium,
            possibleKeys = [''C'', ''Cm'', ''A'', ''Am'', ''F'']\<rparr>"
    by code_simp
qed

theorem detectKey_confidence_by_length_witness:
  "(\<exists>r. detectKey [''G'', ''D'', ''Em'', ''C'', ''G'', ''D''] = Inr r \<and> confidence r = Medium)
   \<and> (\<exists>r. detectKey [''Am''] = Inr r \<and> confidence r = Low)
   \<and> (\<exists>r. detectKey [''E'', ''A'', ''B'', ''E'', ''A'', ''B'', ''E'', ''A'', ''B'', ''E'', ''A''] = Inr r
          \<and> confidence r = High)"
proof -
  let ?six = "[''G'', ''D'', ''Em'', ''C'', ''G'', ''D'']"
  let ?one = "[''Am'']"
  let ?eleven = "[''E'', ''A'', ''B'', ''E'', ''A'', ''B'', ''E'', ''A'', ''B'', ''E'', ''A'']"
  have six: "\<forall>c \<in> set ?six. \<not> isl (getNoteIndex (root (parseChord c)))" by code_simp
  have one: "\<forall>c \<in> set ?one. \<not> isl (getNoteIndex (root (parseChord c)))" by code_simp
  have eleven: "\<forall>c \<in> set ?eleven. \<not> isl (getNoteIndex (root (parseChord c)))" by code_simp
  from six detectKey_confidence_by_length [of ?six]
  have "\<exists>r. detectKey ?six = Inr r \<and> confidence r = Medium" by auto
  moreover from one detectKey_confidence_by_length [of ?one]
  have "\<exists>r. detectKey ?one = Inr r \<and> confidence r = Low" by auto
  moreover from eleven detectKey_confidence_by_length [of ?eleven]
  have "\<exists>r. detectKey ?eleven = Inr r \<and> confidence r = High" by auto
  ultimately show ?thesis by blast
qed

text \<open>
  C10, as the claim states it, fails: the root \<open>__proto__\<close> is no note, and \<open>detectKey\<close> returns
  for the list that holds only this token, since the root never becomes a property of
  \<open>chordCounts\<close> and is never looked up. A token whose first character is white space (a
  space, or the no-break space U+00A0, which \<open>trim\<close> removes as well) or a lower-case letter
  a to g can have a root that is a note.
\<close>

theorem detectKey_returns_for_proto_root:
  "''__proto__'' \<in> set [''__proto__'']
   \<and> normalizeToSharp (root (parseChord ''__proto__'')) \<notin> set NOTES
   \<and> detectKey [''__proto__''] = Inr \<lparr>detectedKey = ''C'', confidence = Low, possibleKeys = []\<rparr>
   \<and> detectKey ['' C''] = Inr \<lparr>detectedKey = ''C'', confidence = Low, possibleKeys = [''C'', ''Cm'']\<rparr>
   \<and> detectKey [[CHR 0xA0, CHR ''C'']] =
       Inr \<lparr>detectedKey = ''C'', confidence = Low, possibleKeys = [''C'', ''Cm'']\<rparr>
   \<and> detectKey [''c''] = Inr \<lparr>detectedKey = ''C'', confidence = Low, possibleKeys = [''C'', ''Cm'']\<rparr>"
  by code_simp

text \<open>
  C10, amended: \<open>detectKey\<close> throws the invalid-note error for every list of chords that holds a
  token whose parsed root is not \<open>__proto__\<close> and does not normalise to one of the 12 spellings
  of \<open>NOTES\<close>. Such a token is every non-empty token other than \<open>__proto__\<close> whose first
  character is neither white space (\<open>is_space\<close>, all that \<open>trim\<close> removes) nor, in either
  case, a letter A to G: its root is the token itself.
\<close>

theorem detectKey_throws_on_unrecognized_root:
  "(c \<in> set cs \<and> root (parseChord c) \<noteq> ''__proto__''
      \<and> normalizeToSharp (root (parseChord c)) \<notin> set NOTES
     \<longrightarrow> (\<exists>n. detectKey cs = Inl (InvalidNote n)))
   \<and> (t \<in> set cs \<and> t \<noteq> [] \<and> t \<noteq> ''__proto__'' \<and> \<not> is_space (hd t)
      \<and> toUpperCase_char (hd t) \<notin> set ''ABCDEFG''
     \<longrightarrow> root (parseChord t) = t \<and> normalizeToSharp (root (parseChord t)) \<notin> set NOTES
         \<and> (\<exists>n. detectKey cs = Inl (InvalidNote n)))"
proof (intro conjI impI)
  assume a: "c \<in> set cs \<and> root (parseChord c) \<noteq> ''__proto__''
      \<and> normalizeToSharp (root (parseChord c)) \<notin> set NOTES"
  then obtain e where "getNoteIndex (root (parseChord c)) = Inl e"
    using getNoteIndex_Inl_iff [of "root (parseChord c)"] by blast
  with a show "\<exists>n. detectKey cs = Inl (InvalidNote n)"
    using detectKey_throws [of c cs e] by blast
next
  assume b: "t \<in> set cs \<and> t \<noteq> [] \<and> t \<noteq> ''__proto__'' \<and> \<not> is_space (hd t)
      \<and> toUpperCase_char (hd t) \<notin> set ''ABCDEFG''"
  then have u: "root (parseChord t) = t \<and> normalizeToSharp t \<notin> set NOTES"
    using unparsed_token [of t] by blast
  then show "root (parseChord t) = t" by blast
  from u show "normalizeToSharp (root (parseChord t)) \<notin> set NOTES" by simp
  from u obtain e where "getNoteIndex (root (parseChord t)) = Inl e"
    using getNoteIndex_Inl_iff [of "root (parseChord t)"] by auto
  with b u show "\<exists>n. detectKey cs = Inl (InvalidNote n)"
    using detectKey_throws [of t cs e] by simp
qed

theorem detectKey_throws_on_unrecognized_root_witness:
  "(\<exists>n. detectKey [''C'', ''Hm'', ''G''] = Inl (InvalidNote n))
   \<and> root (parseChord ''Hm'') = ''Hm''
   \<and> normalizeToSharp (root (parseChord ''Hm'')) \<notin> set NOTES"
proof -
  have a: "''Hm'' \<in> set [''C'', ''Hm'', ''G''] \<and> root (parseChord ''Hm'') \<noteq> ''__proto__''
      \<and> normalizeToSharp (root (parseChord ''Hm'')) \<notin> set NOTES" by code_simp
  have b: "''Hm'' \<in> set [''C'', ''Hm'', ''G''] \<and> ''Hm'' \<noteq> [] \<and> ''Hm'' \<noteq> ''__proto__''
      \<and> \<not> is_space (hd ''Hm'') \<and> toUpperCase_char (hd ''Hm'') \<notin> set ''ABCDEFG''"
    by code_simp
  from a b detectKey_throws_on_unrecognized_root [of "''Hm''" "[''C'', ''Hm'', ''G'']" "''Hm''"]
  show ?thesis by blast
qed

section \<open>Transposing there and back\<close>

subsection \<open>How the chord pattern matches\<close>

declare rmatch.simps(7) [simp del] rmatch.simps(8) [simp del]

lemma canon_False [simp]: "canon False c = c"
  by (simp add: canon_def)

lemma atom_ok_OneOf [simp]: "atom_ok False (OneOf xs) c = (c \<in> set xs)"
  by (simp add: canon_def)

lemma atom_ok_Chr [simp]: "atom_ok False (Chr x) c = (x = c)"
  by (simp add: canon_def)

lemma rmatch_note_rx:
  "rmatch False note_rx s =
     (case s of
        [] \<Rightarrow> []
      | x # t \<Rightarrow>
          if x \<in> set ''ABCDEFG'' then
            (case t of
               [] \<Rightarrow> [[]]
             | a # t' \<Rightarrow> if a \<in> set ''#b'' then [t', a # t'] else [a # t'])
          else [])"
  unfolding note_rx_def A_G_def sharp_flat_def
  by (simp del: list.set atom_ok.simps split: list.splits)

lemma grp_note_rx:
  "grp False note_rx s =
     (case s of
        [] \<Rightarrow> []
      | x # t \<Rightarrow>
          if x \<in> set ''ABCDEFG'' then
            (case t of
               [] \<Rightarrow> [([x], [])]
             | a # t' \<Rightarrow> if a \<in> set ''#b'' then [([x, a], t'), ([x], a # t')] else [([x], a # t')])
          else [])"
  unfolding grp_def rmatch_note_rx
  by (simp del: list.set split: list.splits)

lemma rmatch_lazy_dot_Nil: "rmatch False (LazyStar (Atom Dot)) [] = [[]]"
  by (simp add: rmatch.simps(8))

lemma rmatch_lazy_dot_Cons:
  "rmatch False (LazyStar (Atom Dot)) (x # s) =
     (x # s) # (if is_line_terminator x then [] else rmatch False (LazyStar (Atom Dot)) s)"
  by (subst rmatch.simps(8)) simp

lemma rmatch_lazy_dot_length:
  "r \<in> set (rmatch False (LazyStar (Atom Dot)) s) \<Longrightarrow> length r \<le> length s"
proof (induction s)
  case Nil
  then show ?case by (simp add: rmatch_lazy_dot_Nil)
next
  case (Cons x s)
  then show ?case
    by (auto simp add: rmatch_lazy_dot_Cons split: if_splits)
qed

lemma grp_lazy_dot_Nil: "grp False (LazyStar (Atom Dot)) [] = [([], [])]"
  by (simp add: grp_def rmatch_lazy_dot_Nil)

lemma grp_lazy_dot_Cons:
  "grp False (LazyStar (Atom Dot)) (x # s) =
     ([], x # s) # (if is_line_terminator x then []
                    else map (\<lambda>(g, r). (x # g, r)) (grp False (LazyStar (Atom Dot)) s))"
proof -
  have "map (\<lambda>rest. (take (length (x # s) - length rest) (x # s), rest))
            (rmatch False (LazyStar (Atom Dot)) s) =
        map (\<lambda>(g, r). (x # g, r))
            (map (\<lambda>rest. (take (length s - length rest) s, rest))
               (rmatch False (LazyStar (Atom Dot)) s))"
    using rmatch_lazy_dot_length [of _ s] by (auto simp add: Suc_diff_le)
  then show ?thesis
    unfolding grp_def rmatch_lazy_dot_Cons by simp
qed

lemma bass_end_Nil: "bass_end [] = [None]"
  by (simp add: bass_end_def opt_grp_def grp_def)

lemma bass_end_Cons:
  "bass_end (x # t) =
     (if x = CHR ''/'' then
        map (\<lambda>r. Some (x # t)) (filter (\<lambda>r. r = []) (rmatch False note_rx t))
      else [])"
proof -
  have "concat (map (\<lambda>r. map (\<lambda>rest. Some (take (Suc (length t) - length r) (x # t)))
                             (if r = [] then [r] else [])) rs) =
        map (\<lambda>r. Some (x # t)) (filter (\<lambda>r. r = []) rs)" for rs :: "string list"
    by (induction rs) auto
  then show ?thesis
    by (simp add: bass_end_def opt_grp_def grp_def comp_def)
qed

lemma note_rx_whole_shape:
  assumes "[] \<in> set (rmatch False note_rx t)"
  shows "\<exists>x. x \<in> set ''ABCDEFG'' \<and> (t = [x] \<or> (\<exists>a. a \<in> set ''#b'' \<and> t = [x, a]))"
proof (cases t)
  case Nil
  with assms show ?thesis by (simp add: rmatch_note_rx)
next
  case t: (Cons x t1)
  show ?thesis
  proof (cases "x \<in> set ''ABCDEFG''")
    case False
    with assms t show ?thesis by (simp add: rmatch_note_rx)
  next
    case x: True
    show ?thesis
    proof (cases t1)
      case Nil
      with x t show ?thesis by blast
    next
      case t1: (Cons a t2)
      show ?thesis
      proof (cases "a \<in> set ''#b''")
        case True
        with assms t t1 x have "t2 = []"
          by (simp add: rmatch_note_rx)
        with True x t t1 show ?thesis by blast
      next
        case False
        with assms t t1 x show ?thesis
          by (simp add: rmatch_note_rx)
      qed
    qed
  qed
qed

lemma note_rx_whole:
  assumes "[] \<in> set (rmatch False note_rx t)"
  shows "t \<noteq> [] \<and> CHR ''/'' \<notin> set t"
proof -
  have a: "CHR ''/'' \<notin> set ''ABCDEFG''" by simp
  have b: "CHR ''/'' \<notin> set ''#b''" by simp
  from note_rx_whole_shape [OF assms] obtain x
    where x: "x \<in> set ''ABCDEFG''" and t: "t = [x] \<or> (\<exists>a. a \<in> set ''#b'' \<and> t = [x, a])"
    by blast
  from x a have x': "x \<noteq> CHR ''/''" by blast
  from t show ?thesis
  proof (elim disjE exE conjE)
    assume "t = [x]"
    with x' show ?thesis by simp
  next
    fix a assume a': "a \<in> set ''#b''" and t': "t = [x, a]"
    from a' b have "a \<noteq> CHR ''/''" by blast
    with x' t' show ?thesis by simp
  qed
qed

lemma bass_end_elem:
  assumes "g \<in> set (bass_end s)"
  shows "(g = None \<and> s = []) \<or> (g = Some s \<and> (\<exists>n. s = CHR ''/'' # n \<and> n \<noteq> []))"
proof (cases s)
  case Nil
  with assms show ?thesis by (simp add: bass_end_Nil)
next
  case (Cons x t)
  with assms have "x = CHR ''/''" and "[] \<in> set (rmatch False note_rx t)" and "g = Some s"
    by (auto simp add: bass_end_Cons split: if_splits)
  with Cons show ?thesis using note_rx_whole [of t] by simp
qed

lemma bass_end_inside:
  assumes "m \<noteq> []"
  shows "bass_end (x # q @ CHR ''/'' # m) = []"
proof -
  have "[] \<notin> set (rmatch False note_rx (q @ CHR ''/'' # m))"
    using note_rx_whole [of "q @ CHR ''/'' # m"] by auto
  then have "filter (\<lambda>r. r = []) (rmatch False note_rx (q @ CHR ''/'' # m)) = []"
    by (auto simp add: filter_empty_conv)
  then show ?thesis by (simp add: bass_end_Cons)
qed

lemma chord_tail_Nil: "chord_tail [] = [([], None)]"
  by (simp add: chord_tail_def grp_lazy_dot_Nil bass_end_Nil)

lemma chord_tail_Cons:
  "chord_tail (x # s) =
     map (Pair []) (bass_end (x # s))
     @ (if is_line_terminator x then []
        else map (\<lambda>(g2, g3). (x # g2, g3)) (chord_tail s))"
  by (simp add: chord_tail_def grp_lazy_dot_Cons map_concat comp_def case_prod_unfold)

lemma chord_tail_elem:
  "(q, b) \<in> set (chord_tail s) \<Longrightarrow>
     s = q @ (case b of None \<Rightarrow> [] | Some bs \<Rightarrow> bs)
     \<and> (\<forall>c \<in> set q. \<not> is_line_terminator c)
     \<and> (\<forall>bs. b = Some bs \<longrightarrow> (\<exists>n. bs = CHR ''/'' # n \<and> n \<noteq> []))"
proof (induction s arbitrary: q)
  case Nil
  then show ?case by (simp add: chord_tail_Nil)
next
  case (Cons x s)
  from Cons.prems consider
      (here) "q = []" and "b \<in> set (bass_end (x # s))"
    | (later) q' where "q = x # q'" and "\<not> is_line_terminator x" and "(q', b) \<in> set (chord_tail s)"
    by (auto simp add: chord_tail_Cons split: if_splits)
  then show ?case
  proof cases
    case here
    with bass_end_elem [of b "x # s"] show ?thesis by auto
  next
    case later
    with Cons.IH [of q'] show ?thesis by simp
  qed
qed

lemma chord_tail_bass:
  assumes "\<forall>c \<in> set q. \<not> is_line_terminator c"
    and "bass_end (CHR ''/'' # m) = [Some (CHR ''/'' # m)]" and "m \<noteq> []"
  shows "\<exists>rest. chord_tail (q @ CHR ''/'' # m) = (q, Some (CHR ''/'' # m)) # rest"
  using assms(1)
proof (induction q)
  case Nil
  show ?case using assms(2) by (simp add: chord_tail_Cons)
next
  case (Cons x q)
  then obtain rest where "chord_tail (q @ CHR ''/'' # m) = (q, Some (CHR ''/'' # m)) # rest"
    by auto
  moreover have "bass_end (x # q @ CHR ''/'' # m) = []"
    using assms(3) by (rule bass_end_inside)
  moreover have "\<not> is_line_terminator x" using Cons.prems by simp
  ultimately show ?case by (simp add: chord_tail_Cons)
qed

lemma chordRegex_first:
  assumes "grp False note_rx s = (g1, s1) # ms" and "chord_tail s1 = (g2, g3) # ms'"
  shows "chordRegex s = Some (g1, g2, g3)"
  using assms by (simp add: chordRegex_def)

lemma rmatch_suffix: "r \<in> set (rmatch i rx s) \<Longrightarrow> \<exists>p. s = p @ r"
proof (induction i rx s arbitrary: r rule: rmatch.induct)
  case (1 i a s)
  then show ?case by (auto split: list.splits if_splits)
next
  case (2 i s)
  then show ?case by simp
next
  case (3 i s)
  then show ?case by (simp split: if_splits)
next
  case (4 i r1 r2 s)
  from "4.prems" obtain s' where s': "s' \<in> set (rmatch i r1 s)" and r: "r \<in> set (rmatch i r2 s')"
    by auto
  from "4.IH"(1) [OF s'] obtain p where "s = p @ s'" by blast
  moreover from "4.IH"(2) [OF s' r] obtain p' where "s' = p' @ r" by blast
  ultimately have "s = (p @ p') @ r" by simp
  then show ?case by blast
next
  case (5 i r1 r2 s)
  then show ?case by auto
next
  case (6 i r s)
  then show ?case by auto
next
  case (7 i r0 s)
  from "7.prems" consider "r = s"
    | s' where "s' \<in> set (rmatch i r0 s)" "length s' < length s" "r \<in> set (rmatch i (Star r0) s')"
    by (auto simp add: rmatch.simps(7) [of i r0 s])
  then show ?case
  proof cases
    case 1
    then show ?thesis by simp
  next
    case 2
    from "7.IH"(1) [OF 2(1)] obtain p where "s = p @ s'" by blast
    moreover from "7.IH"(2) [of s' r] 2 obtain p' where "s' = p' @ r" by auto
    ultimately have "s = (p @ p') @ r" by simp
    then show ?thesis by blast
  qed
next
  case (8 i r0 s)
  from "8.prems" consider "r = s"
    | s' where "s' \<in> set (rmatch i r0 s)" "length s' < length s"
        "r \<in> set (rmatch i (LazyStar r0) s')"
    by (auto simp add: rmatch.simps(8) [of i r0 s])
  then show ?case
  proof cases
    case 1
    then show ?thesis by simp
  next
    case 2
    from "8.IH"(1) [OF 2(1)] obtain p where "s = p @ s'" by blast
    moreover from "8.IH"(2) [of s' r] 2 obtain p' where "s' = p' @ r" by auto
    ultimately have "s = (p @ p') @ r" by simp
    then show ?thesis by blast
  qed
qed

lemma grp_append: "(g, r) \<in> set (grp i rx s) \<Longrightarrow> s = g @ r"
proof -
  assume "(g, r) \<in> set (grp i rx s)"
  then have r: "r \<in> set (rmatch i rx s)" and g: "g = take (length s - length r) s"
    by (auto simp add: grp_def)
  from rmatch_suffix [OF r] obtain p where "s = p @ r" by blast
  with g show ?thesis by simp
qed

lemma concat_first: "concat xss = x # ms \<Longrightarrow> \<exists>xs \<in> set xss. \<exists>rest. xs = x # rest"
proof (induction xss)
  case Nil
  then show ?case by simp
next
  case (Cons a xss)
  then show ?case by (cases a) auto
qed

lemma chordRegex_SomeD:
  assumes "chordRegex s = Some (r, q, b)"
  shows "\<exists>s1 rest. s = r @ s1 \<and> chord_tail s1 = (q, b) # rest"
proof -
  let ?F = "\<lambda>(g1, s1). map (\<lambda>(g2, g3). (g1, g2, g3)) (chord_tail s1)"
  from assms obtain ms where "concat (map ?F (grp False note_rx s)) = (r, q, b) # ms"
    by (auto simp add: chordRegex_def split: list.splits)
  from concat_first [OF this] obtain xs rest
    where xs: "xs \<in> set (map ?F (grp False note_rx s))" and first: "xs = (r, q, b) # rest"
    by blast
  from xs obtain g1 s1 where in_grp: "(g1, s1) \<in> set (grp False note_rx s)"
    and "xs = map (\<lambda>(g2, g3). (g1, g2, g3)) (chord_tail s1)"
    by auto
  with first have "map (\<lambda>(g2, g3). (g1, g2, g3)) (chord_tail s1) = (r, q, b) # rest"
    by simp
  then obtain rest' where "chord_tail s1 = (q, b) # rest'" and "g1 = r"
    by (cases "chord_tail s1") auto
  moreover from in_grp have "s = g1 @ s1" by (rule grp_append)
  ultimately show ?thesis by blast
qed

lemma js_rem_wrap: "js_rem (js_rem a 12 + 12) 12 = a mod 12"
proof (cases "a < 0")
  case True
  define m where "m = (- a) mod 12"
  have m: "0 \<le> m" "m < 12" by (simp_all add: m_def)
  have "js_rem a 12 = - m" using True by (simp add: js_rem_def m_def)
  then have "js_rem (js_rem a 12 + 12) 12 = (12 - m) mod 12"
    using m by (simp add: js_rem_def)
  also have "\<dots> = (- m + 12) mod 12" by (simp add: algebra_simps)
  also have "\<dots> = (- m) mod 12" by (rule mod_add_self2)
  also have "\<dots> = (- (- a)) mod 12" unfolding m_def by (rule mod_minus_eq)
  finally show ?thesis by simp
next
  case False
  then have "js_rem a 12 = a mod 12" by (cases "a = 0") (simp_all add: js_rem_def)
  moreover have "0 < a mod 12 + 12"
    using pos_mod_sign [of 12 a] by linarith
  ultimately show ?thesis by (simp add: js_rem_def)
qed

lemma trim_id:
  assumes "s \<noteq> []" and "\<not> is_space (hd s)" and "\<not> is_space (last s)"
  shows "trim s = s"
proof -
  from assms(2) have "dropWhile is_space s = s"
    by (simp add: dropWhile_eq_self_iff)
  moreover from assms(1,3) have "dropWhile is_space (rev s) = rev s"
    by (simp add: dropWhile_eq_self_iff hd_rev)
  ultimately show ?thesis by (simp add: trim_def)
qed

lemma trim_last:
  assumes "trim s \<noteq> []"
  shows "\<not> is_space (last (trim s))"
proof -
  let ?d = "dropWhile is_space (rev (dropWhile is_space s))"
  from assms have "?d \<noteq> []" by (simp add: trim_def)
  then have "\<not> is_space (hd ?d)" by (rule hd_dropWhile)
  moreover have "last (trim s) = hd ?d"
    using \<open>?d \<noteq> []\<close> by (simp add: trim_def last_rev)
  ultimately show ?thesis by simp
qed

lemma length_SHARP_NOTES: "length SHARP_NOTES = 12"
  by (simp add: SHARP_NOTES_def)

lemma sharp_nth_mem: "k < 12 \<Longrightarrow> SHARP_NOTES ! k \<in> set SHARP_NOTES"
  using nth_mem [of k SHARP_NOTES] by (simp add: length_SHARP_NOTES)

lemma sharp_note_index:
  "list_all (\<lambda>k. getNoteIndex (SHARP_NOTES ! k) = Inr (int k)) [0 ..< 12]"
  by code_simp

lemma sharp_note_getNoteIndex:
  assumes "k < 12"
  shows "getNoteIndex (SHARP_NOTES ! k) = Inr (int k)"
proof -
  from assms have "k \<in> set [0 ..< 12]" by simp
  with sharp_note_index show ?thesis
    unfolding list_all_iff by blast
qed

lemma sharp_note_shape:
  "list_all (\<lambda>n. n \<noteq> [] \<and> \<not> is_space (hd n) \<and> \<not> is_space (last n)
               \<and> bass_end (CHR ''/'' # n) = [Some (CHR ''/'' # n)]
               \<and> hd n \<in> set ''ABCDEFG''
               \<and> (tl n = [] \<or> tl n = ''#'')) SHARP_NOTES"
  by code_simp

lemma sharp_note_props:
  assumes "n \<in> set SHARP_NOTES"
  shows "n \<noteq> []" and "\<not> is_space (hd n)" and "\<not> is_space (last n)"
    and "bass_end (CHR ''/'' # n) = [Some (CHR ''/'' # n)]"
    and "hd n \<in> set ''ABCDEFG''" and "tl n = [] \<or> tl n = ''#''"
  using assms sharp_note_shape unfolding list_all_iff by blast+

lemma sharp_note_grp:
  assumes "n \<in> set SHARP_NOTES" and "t = [] \<or> hd t \<notin> set ''#b''"
  shows "\<exists>ms. grp False note_rx (n @ t) = (n, t) # ms"
proof -
  from sharp_note_props [OF assms(1)] obtain x where x: "x \<in> set ''ABCDEFG''"
    and n: "n = [x] \<or> n = [x, CHR ''#'']"
    by (cases n) auto
  from n show ?thesis
  proof
    assume "n = [x]"
    with x assms(2) show ?thesis
      by (cases t) (simp_all add: grp_note_rx)
  next
    assume "n = [x, CHR ''#'']"
    with x show ?thesis by (simp add: grp_note_rx)
  qed
qed

lemma transposeNote_sharp:
  assumes "getNoteIndex n = Inr i"
  shows "transposeNote n N False = Inr (SHARP_NOTES ! nat ((i + N) mod 12))"
  using assms by (simp add: transposeNote_def js_rem_wrap)

lemma shifted_index: "nat ((i + N) mod 12) < 12"
  using pos_mod_bound [of 12 "i + N"] pos_mod_sign [of 12 "i + N"] by linarith

lemma shifted_back:
  assumes "0 \<le> i" and "i < 12"
  shows "nat ((int (nat ((i + N) mod 12)) + - N) mod 12) = nat i"
proof -
  have "int (nat ((i + N) mod 12)) = (i + N) mod 12"
    using pos_mod_sign [of 12 "i + N"] by simp
  then have "(int (nat ((i + N) mod 12)) + - N) mod 12 = ((i + N) mod 12 + - N) mod 12"
    by simp
  also have "\<dots> = (i + N + - N) mod 12" by (rule mod_add_left_eq)
  also have "\<dots> = i" using assms by simp
  finally show ?thesis by simp
qed

lemma parse_built_plain:
  assumes "k < 12" and "q = [] \<or> hd q \<notin> set ''#b''"
    and "chord_tail q = (q, None) # rest" and "q = [] \<or> \<not> is_space (last q)"
  shows "parseChord (SHARP_NOTES ! k @ q) = \<lparr>root = SHARP_NOTES ! k, quality = q, bass = None\<rparr>"
proof -
  let ?n = "SHARP_NOTES ! k"
  have mem: "?n \<in> set SHARP_NOTES" using assms(1) by (rule sharp_nth_mem)
  note props = sharp_note_props [OF mem]
  have "trim (?n @ q) = ?n @ q"
  proof (rule trim_id)
    show "?n @ q \<noteq> []" using props(1) by simp
    show "\<not> is_space (hd (?n @ q))" using props(1,2) by simp
    show "\<not> is_space (last (?n @ q))" using props(1,3) assms(4) by (cases "q = []") simp_all
  qed
  moreover from sharp_note_grp [OF mem assms(2)] obtain ms
    where "grp False note_rx (?n @ q) = (?n, q) # ms" by blast
  then have "chordRegex (?n @ q) = Some (?n, q, None)"
    using assms(3) by (rule chordRegex_first)
  ultimately show ?thesis by (simp add: parseChord_def)
qed

lemma parse_built_bass:
  assumes "k < 12" and "j < 12" and "q = [] \<or> hd q \<notin> set ''#b''"
    and "\<forall>c \<in> set q. \<not> is_line_terminator c"
  shows "parseChord (SHARP_NOTES ! k @ q @ ''/'' @ SHARP_NOTES ! j) =
           \<lparr>root = SHARP_NOTES ! k, quality = q, bass = Some (SHARP_NOTES ! j)\<rparr>"
proof -
  let ?n = "SHARP_NOTES ! k" and ?m = "SHARP_NOTES ! j"
  let ?t = "q @ CHR ''/'' # ?m"
  have mem: "?n \<in> set SHARP_NOTES" using assms(1) by (rule sharp_nth_mem)
  have mem': "?m \<in> set SHARP_NOTES" using assms(2) by (rule sharp_nth_mem)
  note props = sharp_note_props [OF mem] and props' = sharp_note_props [OF mem']
  have "trim (?n @ ?t) = ?n @ ?t"
  proof (rule trim_id)
    show "?n @ ?t \<noteq> []" by simp
    show "\<not> is_space (hd (?n @ ?t))" using props(1,2) by simp
    show "\<not> is_space (last (?n @ ?t))" using props'(1,3) by simp
  qed
  moreover have "?t = [] \<or> hd ?t \<notin> set ''#b''"
    using assms(3) by (cases q) simp_all
  from sharp_note_grp [OF mem this] obtain ms
    where "grp False note_rx (?n @ ?t) = (?n, ?t) # ms" by blast
  moreover from chord_tail_bass [OF assms(4) props'(4) props'(1)] obtain rest
    where "chord_tail ?t = (q, Some (CHR ''/'' # ?m)) # rest" by blast
  ultimately have "chordRegex (trim (?n @ ?t)) = Some (?n, q, Some (CHR ''/'' # ?m))"
    using chordRegex_first by simp
  then show ?thesis by (simp add: parseChord_def)
qed

lemma built_nonblank:
  assumes "k < 12"
  shows "trim (SHARP_NOTES ! k @ t) \<noteq> []"
proof -
  note props = sharp_note_props [OF sharp_nth_mem [OF assms]]
  from props(1,2) show ?thesis
    using trim_keeps_head [of "SHARP_NOTES ! k @ t"] by simp
qed

lemma transposeChord_plain:
  assumes "N \<noteq> 0" and "trim c \<noteq> []"
    and "parseChord c = \<lparr>root = r, quality = q, bass = None\<rparr>"
    and "getNoteIndex r = Inr i"
  shows "transposeChord c N False = Inr (SHARP_NOTES ! nat ((i + N) mod 12) @ q)"
  using assms by (simp add: transposeChord_def transposeNote_sharp)

lemma transposeChord_bass:
  assumes "N \<noteq> 0" and "trim c \<noteq> []"
    and "parseChord c = \<lparr>root = r, quality = q, bass = Some n\<rparr>" and "n \<noteq> []"
    and "getNoteIndex r = Inr i" and "getNoteIndex n = Inr j"
  shows "transposeChord c N False =
           Inr (SHARP_NOTES ! nat ((i + N) mod 12) @ q @ ''/'' @ SHARP_NOTES ! nat ((j + N) mod 12))"
proof -
  have "SHARP_NOTES ! nat ((j + N) mod 12) \<noteq> []"
    using sharp_note_props(1) [OF sharp_nth_mem [OF shifted_index]] .
  with assms show ?thesis
    by (simp add: transposeChord_def transposeNote_sharp)
qed

lemma round_trip_plain:
  assumes "N \<noteq> 0" and "trim c \<noteq> []"
    and "parseChord c = \<lparr>root = r, quality = q, bass = None\<rparr>"
    and "getNoteIndex r = Inr i"
    and "q = [] \<or> hd q \<notin> set ''#b''"
    and "chord_tail q = (q, None) # rest" and "q = [] \<or> \<not> is_space (last q)"
  shows "\<exists>c' c''. transposeChord c N False = Inr c' \<and> transposeChord c' (- N) False = Inr c''
           \<and> parseChord c'' = \<lparr>root = SHARP_NOTES ! nat i, quality = q, bass = None\<rparr>"
proof -
  let ?k = "nat ((i + N) mod 12)"
  let ?c' = "SHARP_NOTES ! ?k @ q"
  let ?c'' = "SHARP_NOTES ! nat i @ q"
  from getNoteIndex_range [OF assms(4)] have i: "0 \<le> i" "i < 12" by simp_all
  have k: "?k < 12" by (rule shifted_index)
  have one: "transposeChord c N False = Inr ?c'"
    using assms(1-4) by (rule transposeChord_plain)
  have "parseChord ?c' = \<lparr>root = SHARP_NOTES ! ?k, quality = q, bass = None\<rparr>"
    using k assms(5-7) by (rule parse_built_plain)
  moreover have "trim ?c' \<noteq> []" using k by (rule built_nonblank)
  moreover have "getNoteIndex (SHARP_NOTES ! ?k) = Inr (int ?k)"
    using k by (rule sharp_note_getNoteIndex)
  moreover have "- N \<noteq> 0" using assms(1) by simp
  ultimately have "transposeChord ?c' (- N) False =
      Inr (SHARP_NOTES ! nat ((int ?k + - N) mod 12) @ q)"
    using transposeChord_plain [of "- N" ?c' "SHARP_NOTES ! ?k" q "int ?k"] by blast
  then have two: "transposeChord ?c' (- N) False = Inr ?c''"
    using shifted_back [OF i, of N] by simp
  have "nat i < 12" using i by simp
  then have "parseChord ?c'' = \<lparr>root = SHARP_NOTES ! nat i, quality = q, bass = None\<rparr>"
    using assms(5-7) by (rule parse_built_plain)
  with one two show ?thesis by blast
qed

lemma round_trip_bass:
  assumes "N \<noteq> 0" and "trim c \<noteq> []"
    and "parseChord c = \<lparr>root = r, quality = q, bass = Some n\<rparr>" and "n \<noteq> []"
    and "getNoteIndex r = Inr i" and "getNoteIndex n = Inr j"
    and "q = [] \<or> hd q \<notin> set ''#b''"
    and "\<forall>c \<in> set q. \<not> is_line_terminator c"
  shows "\<exists>c' c''. transposeChord c N False = Inr c' \<and> transposeChord c' (- N) False = Inr c''
           \<and> parseChord c'' =
               \<lparr>root = SHARP_NOTES ! nat i, quality = q, bass = Some (SHARP_NOTES ! nat j)\<rparr>"
proof -
  let ?k = "nat ((i + N) mod 12)" and ?l = "nat ((j + N) mod 12)"
  let ?c' = "SHARP_NOTES ! ?k @ q @ ''/'' @ SHARP_NOTES ! ?l"
  let ?c'' = "SHARP_NOTES ! nat i @ q @ ''/'' @ SHARP_NOTES ! nat j"
  from getNoteIndex_range [OF assms(5)] have i: "0 \<le> i" "i < 12" by simp_all
  from getNoteIndex_range [OF assms(6)] have j: "0 \<le> j" "j < 12" by simp_all
  have k: "?k < 12" and l: "?l < 12" by (rule shifted_index)+
  have one: "transposeChord c N False = Inr ?c'"
    using assms(1-6) by (rule transposeChord_bass)
  have "parseChord ?c' =
      \<lparr>root = SHARP_NOTES ! ?k, quality = q, bass = Some (SHARP_NOTES ! ?l)\<rparr>"
    using k l assms(7,8) by (rule parse_built_bass)
  moreover have "trim ?c' \<noteq> []" using k by (rule built_nonblank)
  moreover have "SHARP_NOTES ! ?l \<noteq> []"
    using sharp_note_props(1) [OF sharp_nth_mem [OF l]] .
  moreover have "getNoteIndex (SHARP_NOTES ! ?k) = Inr (int ?k)"
    using k by (rule sharp_note_getNoteIndex)
  moreover have "getNoteIndex (SHARP_NOTES ! ?l) = Inr (int ?l)"
    using l by (rule sharp_note_getNoteIndex)
  moreover have "- N \<noteq> 0" using assms(1) by simp
  ultimately have "transposeChord ?c' (- N) False =
      Inr (SHARP_NOTES ! nat ((int ?k + - N) mod 12) @ q @ ''/''
           @ SHARP_NOTES ! nat ((int ?l + - N) mod 12))"
    using transposeChord_bass [of "- N" ?c' "SHARP_NOTES ! ?k" q "SHARP_NOTES ! ?l"
        "int ?k" "int ?l"] by blast
  then have two: "transposeChord ?c' (- N) False = Inr ?c''"
    using shifted_back [OF i, of N] shifted_back [OF j, of N] by simp
  have "nat i < 12" and "nat j < 12" using i j by simp_all
  then have "parseChord ?c'' =
      \<lparr>root = SHARP_NOTES ! nat i, quality = q, bass = Some (SHARP_NOTES ! nat j)\<rparr>"
    using assms(7,8) by (rule parse_built_bass)
  with one two show ?thesis by blast
qed

lemma quality_head:
  assumes "\<not> startsWith q ''#''" and "\<not> startsWith q ''b''"
  shows "q = [] \<or> hd q \<notin> set ''#b''"
  using assms by (cases q) (simp_all add: startsWith_def)

text \<open>
  C4, amended: transposing by \<open>N\<close> and back by \<open>-N\<close>. For every chord \<open>c\<close> that is not
  blank, whose parsed root, and bass if it has one, is a note \<open>getNoteIndex\<close> knows, and whose
  quality does not begin with \<open>#\<close> or \<open>b\<close>, and for every \<open>N\<close> from -12 to 12, both calls of
  \<open>transposeChord\<close> return, and the chord they give has a root of the same pitch class as
  the root of \<open>c\<close>, a bass exactly if \<open>c\<close> has one, and that bass of the same pitch class
  as the bass of \<open>c\<close>.
\<close>

theorem transpose_round_trip:
  assumes nonblank: "trim c \<noteq> []"
    and root_ok: "getNoteIndex (root (parseChord c)) = Inr i"
    and bass_ok: "\<forall>b. bass (parseChord c) = Some b \<longrightarrow> (\<exists>j. getNoteIndex b = Inr j)"
    and quality_ok: "\<not> startsWith (quality (parseChord c)) ''#''"
      "\<not> startsWith (quality (parseChord c)) ''b''"
    and shift: "- 12 \<le> N" "N \<le> 12"
  shows "\<exists>c' c''. transposeChord c N False = Inr c' \<and> transposeChord c' (- N) False = Inr c''
           \<and> getNoteIndex (root (parseChord c'')) = getNoteIndex (root (parseChord c))
           \<and> map_option getNoteIndex (bass (parseChord c''))
               = map_option getNoteIndex (bass (parseChord c))"
proof (cases "N = 0")
  case True
  then have "transposeChord c N False = Inr c" and "transposeChord c (- N) False = Inr c"
    by (simp_all add: transposeChord_def)
  then show ?thesis by blast
next
  case shifted: False
  from getNoteIndex_range [OF root_ok] have i: "0 \<le> i" "i < 12" by simp_all
  then have back_i: "getNoteIndex (SHARP_NOTES ! nat i) = Inr i"
    using sharp_note_getNoteIndex [of "nat i"] by simp
  show ?thesis
  proof (cases "chordRegex (trim c)")
    case None
    then have parsed: "parseChord c = \<lparr>root = c, quality = [], bass = None\<rparr>"
      by (simp add: parseChord_def)
    with root_ok have "getNoteIndex c = Inr i" by simp
    with shifted nonblank parsed obtain c' c''
      where "transposeChord c N False = Inr c'" and "transposeChord c' (- N) False = Inr c''"
        and "parseChord c'' = \<lparr>root = SHARP_NOTES ! nat i, quality = [], bass = None\<rparr>"
      using round_trip_plain [of N c c "[]" i "[]"] by (auto simp add: chord_tail_Nil)
    with parsed root_ok back_i show ?thesis by auto
  next
    case (Some m)
    obtain r q b where m: "m = (r, q, b)" by (cases m)
    with Some have parsed: "parseChord c = \<lparr>root = r, quality = q, bass = map_option (drop 1) b\<rparr>"
      by (simp add: parseChord_def)
    from Some m chordRegex_SomeD obtain s1 rest
      where whole: "trim c = r @ s1" and tail: "chord_tail s1 = (q, b) # rest" by blast
    from tail have "(q, b) \<in> set (chord_tail s1)" by simp
    from chord_tail_elem [OF this]
    have s1: "s1 = q @ (case b of None \<Rightarrow> [] | Some bs \<Rightarrow> bs)"
      and no_lt: "\<forall>c \<in> set q. \<not> is_line_terminator c"
      and b_shape: "\<forall>bs. b = Some bs \<longrightarrow> (\<exists>n. bs = CHR ''/'' # n \<and> n \<noteq> [])"
      by blast+
    from parsed quality_ok have q_hd: "q = [] \<or> hd q \<notin> set ''#b''"
      using quality_head [of q] by simp
    from parsed root_ok have r: "getNoteIndex r = Inr i" by simp
    show ?thesis
    proof (cases b)
      case None
      with s1 tail have tail': "chord_tail q = (q, None) # rest" by simp
      have "q = [] \<or> \<not> is_space (last q)"
      proof (cases "q = []")
        case False
        with whole s1 None have "last (trim c) = last q" by simp
        with trim_last [OF nonblank] show ?thesis by simp
      qed simp
      with shifted nonblank parsed None r q_hd tail' obtain c' c''
        where "transposeChord c N False = Inr c'" and "transposeChord c' (- N) False = Inr c''"
          and "parseChord c'' = \<lparr>root = SHARP_NOTES ! nat i, quality = q, bass = None\<rparr>"
        using round_trip_plain [of N c r q i rest] by auto
      with parsed None r back_i show ?thesis by auto
    next
      case (Some bs)
      with b_shape obtain n where bs: "bs = CHR ''/'' # n" and n: "n \<noteq> []" by blast
      with parsed Some have parsed': "parseChord c = \<lparr>root = r, quality = q, bass = Some n\<rparr>"
        by simp
      with bass_ok obtain j where j: "getNoteIndex n = Inr j" by auto
      from getNoteIndex_range [OF j] have "0 \<le> j" "j < 12" by simp_all
      then have back_j: "getNoteIndex (SHARP_NOTES ! nat j) = Inr j"
        using sharp_note_getNoteIndex [of "nat j"] by simp
      from shifted nonblank parsed' n r j q_hd no_lt obtain c' c''
        where "transposeChord c N False = Inr c'" and "transposeChord c' (- N) False = Inr c''"
          and "parseChord c'' =
            \<lparr>root = SHARP_NOTES ! nat i, quality = q, bass = Some (SHARP_NOTES ! nat j)\<rparr>"
        using round_trip_bass [of N c r q n i j] by auto
      with parsed' r j back_i back_j show ?thesis by auto
    qed
  qed
qed

theorem transpose_round_trip_witness:
  "\<exists>c' c''. transposeChord ''Am7/G'' (- 3) False = Inr c' \<and> transposeChord c' 3 False = Inr c''
     \<and> getNoteIndex (root (parseChord c'')) = Inr 9
     \<and> map_option getNoteIndex (bass (parseChord c'')) = Some (Inr 7)"
proof -
  have a: "trim ''Am7/G'' \<noteq> []" by code_simp
  have b: "getNoteIndex (root (parseChord ''Am7/G'')) = Inr 9" by code_simp
  have c: "bass (parseChord ''Am7/G'') = Some ''G''" by code_simp
  have d: "getNoteIndex ''G'' = Inr 7" by code_simp
  have e: "\<not> startsWith (quality (parseChord ''Am7/G'')) ''#''"
    "\<not> startsWith (quality (parseChord ''Am7/G'')) ''b''" by code_simp+
  from c d have f: "\<forall>b. bass (parseChord ''Am7/G'') = Some b \<longrightarrow> (\<exists>j. getNoteIndex b = Inr j)"
    by simp
  have g: "- 12 \<le> (- 3 :: int)" "(- 3 :: int) \<le> 12" by simp_all
  from transpose_round_trip [OF a b f e g] b c d show ?thesis by simp
qed

text \<open>
  C4, as the claim states it, fails where the quality begins with \<open>b\<close> or \<open>#\<close>: the
  transposed chord is put together as text and parsed again, and a root without a sharp
  takes the first character of such a quality for its own accidental. From \<open>C#b5\<close> the
  shift -1 makes \<open>Cb5\<close>, whose root \<open>Cb\<close> is no note, so the way back throws; from \<open>C##11\<close>
  it makes \<open>C#11\<close>, and the way back gives \<open>D11\<close>, a root of pitch class 2 where \<open>c\<close> has 1.
\<close>

theorem transpose_round_trip_fails:
  "trim ''C#b5'' \<noteq> []
   \<and> getNoteIndex (root (parseChord ''C#b5'')) = Inr 1
   \<and> bass (parseChord ''C#b5'') = None
   \<and> transposeChord ''C#b5'' (- 1) False = Inr ''Cb5''
   \<and> transposeChord ''Cb5'' (- (- 1)) False = Inl (InvalidNote ''Cb'')
   \<and> trim ''C##11'' \<noteq> []
   \<and> getNoteIndex (root (parseChord ''C##11'')) = Inr 1
   \<and> bass (parseChord ''C##11'') = None
   \<and> transposeChord ''C##11'' (- 1) False = Inr ''C#11''
   \<and> transposeChord ''C#11'' (- (- 1)) False = Inr ''D11''
   \<and> getNoteIndex (root (parseChord ''D11'')) = Inr 2"
  by code_simp

end
